theory Spec2Isabelle
  imports Complex_Main
begin

section \<open>Alert rule evaluation and notification engine (src/alerts/alertsEngine.ts)\<close>

subsection \<open>Numbers and their default string representation\<close>

text \<open>
  A JavaScript number that is a finite decimal fraction is modelled by an integer mantissa
  and a decimal scale: \<open>Number m k\<close> stands for \<open>m / 10 ^ k\<close>, so 35.5 is \<open>Number 355 1\<close>
  and 30 is \<open>Number 30 0\<close>.  Comparisons are the comparisons of the values.  NaN and the
  infinities are outside the model, and so are decimals with more significant digits than
  a double carries exactly.
\<close>

datatype number = Number (mantissa: int) (scale: nat)

definition num_val :: "number \<Rightarrow> rat" where
  "num_val x = of_int (mantissa x) / 10 ^ scale x"

definition digit_char :: "nat \<Rightarrow> char" where
  "digit_char d = ''0123456789'' ! d"

fun digits_of :: "nat \<Rightarrow> string" where
  "digits_of n = (if n < 10 then [digit_char n] else digits_of (n div 10) @ [digit_char (n mod 10)])"

declare digits_of.simps [simp del]

definition strip_zeros :: "string \<Rightarrow> string" where
  "strip_zeros ds = rev (dropWhile (\<lambda>c. c = CHR ''0'') (rev ds))"

text \<open>
  \<open>Number.prototype.toString()\<close> in radix 10, following the ECMAScript algorithm
  Number::toString: with \<open>s\<close> the significant digits (no trailing zero), \<open>k\<close> their count
  and \<open>n\<close> the position of the decimal point, the result is positional for
  \<open>-6 < n \<le> 21\<close> and in exponent notation otherwise.
\<close>

definition number_toString :: "number \<Rightarrow> string" where
  "number_toString x =
     (let m = mantissa x in
      if m = 0 then ''0''
      else
        let ds = digits_of (nat \<bar>m\<bar>);
            s = strip_zeros ds;
            k = int (length s);
            n = int (length ds) - int (scale x);
            sign = (if m < 0 then ''-'' else '''')
        in sign @
           (if k \<le> n \<and> n \<le> 21 then s @ replicate (nat (n - k)) (CHR ''0'')
            else if 0 < n \<and> n \<le> 21 then take (nat n) s @ ''.'' @ drop (nat n) s
            else if -6 < n \<and> n \<le> 0 then ''0.'' @ replicate (nat (- n)) (CHR ''0'') @ s
            else
              let e = n - 1;
                  es = (if e < 0 then ''-'' else ''+'') @ digits_of (nat \<bar>e\<bar>)
              in if k = 1 then s @ ''e'' @ es
                 else take 1 s @ ''.'' @ drop 1 s @ ''e'' @ es))"

subsection \<open>String.prototype.replace with a string pattern\<close>

text \<open>
  \<open>find_first pat s\<close> splits \<open>s\<close> at the first occurrence of \<open>pat\<close> into the text pre
  and the text post the match.
\<close>

fun find_first :: "string \<Rightarrow> string \<Rightarrow> (string \<times> string) option" where
  "find_first pat [] = (if pat = [] then Some ([], []) else None)"
| "find_first pat (c # s) =
     (if take (length pat) (c # s) = pat then Some ([], drop (length pat) (c # s))
      else map_option (\<lambda>(b, a). (c # b, a)) (find_first pat s))"

text \<open>
  The replacement text of \<open>replace\<close> is a template: \<open>$$\<close> stands for a dollar sign,
  \<open>$&\<close> for the matched text, \<open>$`\<close> for the text before the match and \<open>$'\<close> for the
  text post it.  A string pattern has no captures, so every other \<open>$\<close> is literal.
\<close>

fun GetSubstitution :: "string \<Rightarrow> string \<Rightarrow> string \<Rightarrow> string \<Rightarrow> string" where
  "GetSubstitution matched pre post [] = []"
| "GetSubstitution matched pre post [c] = [c]"
| "GetSubstitution matched pre post (c # d # t) =
     (if c = CHR ''$'' \<and> d = CHR ''$'' then CHR ''$'' # GetSubstitution matched pre post t
      else if c = CHR ''$'' \<and> d = CHR ''&'' then matched @ GetSubstitution matched pre post t
      else if c = CHR ''$'' \<and> d = CHR 0x60 then pre @ GetSubstitution matched pre post t
      else if c = CHR ''$'' \<and> d = CHR 0x27 then post @ GetSubstitution matched pre post t
      else c # GetSubstitution matched pre post (d # t))"

definition String_replace :: "string \<Rightarrow> string \<Rightarrow> string \<Rightarrow> string" where
  "String_replace s pat rep =
     (case find_first pat s of
        None \<Rightarrow> s
      | Some (pre, post) \<Rightarrow> pre @ GetSubstitution pat pre post rep @ post)"

subsection \<open>generateMessage\<close>

definition generateMessage :: "string \<Rightarrow> string \<Rightarrow> number \<Rightarrow> number \<Rightarrow> string" where
  "generateMessage template metricName val thr =
     String_replace
       (String_replace
          (String_replace template ''{metricName}'' metricName)
          ''{value}'' (number_toString val))
       ''{threshold}'' (number_toString thr)"

subsection \<open>Data model\<close>

record Reading =
  rd_id :: string
  rd_metric_id :: string
  rd_timestamp :: nat
  rd_value :: number

record AlertRule =
  ar_id :: string
  ar_metric_id :: string
  ar_condition :: string
  ar_threshold :: number
  ar_level :: string
  ar_message_template :: string

text \<open>The owner id of a device may be absent (\<open>None\<close>) or the empty string; both are falsy.\<close>

record Device =
  dev_id :: string
  dev_owner_id :: "string option"

record Metric =
  m_id :: string
  m_name :: string
  m_unit :: string
  m_device :: Device

text \<open>\<open>alertData\<close> is the object handed to \<open>prisma.alert.create\<close>; \<open>Alert\<close> is the stored row.\<close>

record alertData =
  metric_id :: string
  reading_id :: string
  level :: string
  status :: string
  threshold :: number
  message :: string

record Alert =
  alert_id :: nat
  created_at :: nat
  data :: alertData

subsection \<open>Collaborators: cache, persistent store, live channel, console\<close>

text \<open>
  The Redis client, the Prisma client and the Socket.IO server are libraries outside the
  repository.  Each call checkRules makes to them is modelled by its effect on a world
  state, by its result, and by the possibility that it throws.

  The text kept in the cache is identified by what \<open>JSON.parse\<close> makes of it: the
  serialisation of a rule array, the empty string, the serialisation of a falsy value
  such as \<open>null\<close>, or text that is not JSON at all.
\<close>

datatype json_text = Rules_text "AlertRule list" | Empty_text | Null_text | Bad_text

datatype error = RedisError | PrismaError | SocketError | SyntaxError

definition JSON_stringify :: "AlertRule list \<Rightarrow> json_text" where
  "JSON_stringify rules = Rules_text rules"

fun JSON_parse :: "json_text \<Rightarrow> error + AlertRule list option" where
  "JSON_parse (Rules_text rules) = Inr (Some rules)"
| "JSON_parse Null_text = Inr None"
| "JSON_parse Empty_text = Inl SyntaxError"
| "JSON_parse Bad_text = Inl SyntaxError"

text \<open>Every call to a collaborator is recorded, in order, with its arguments.\<close>

datatype call =
    Redis_get string
  | Redis_set string json_text nat
  | Find_many string
  | Find_unique string
  | Alert_create alertData
  | Emit string string Alert

text \<open>
  The world holds the clock (in seconds), the cache (key to text and expiry time), the
  tables of the store, the events delivered on the live channel, the console and the
  record of calls.
\<close>

record world =
  now :: nat
  redis :: "string \<rightharpoonup> (json_text \<times> nat)"
  alert_rules :: "AlertRule list"
  metrics :: "Metric list"
  alerts :: "Alert list"
  emitted :: "(string \<times> string \<times> Alert) list"
  console :: "(string \<times> error) list"
  calls :: "call list"

text \<open>
  A fault plan decides which collaborator calls throw: \<open>f n c\<close> says that call \<open>c\<close>, made
  when \<open>n\<close> calls have been recorded, fails.
\<close>

type_synonym fault = "nat \<Rightarrow> call \<Rightarrow> bool"

definition record_call :: "call \<Rightarrow> world \<Rightarrow> world" where
  "record_call c w = w\<lparr>calls := calls w @ [c]\<rparr>"

definition redisClient_get :: "fault \<Rightarrow> string \<Rightarrow> world \<Rightarrow> (error + json_text option) \<times> world" where
  "redisClient_get f key w =
     (if f (length (calls w)) (Redis_get key) then (Inl RedisError, record_call (Redis_get key) w)
      else (Inr (case redis w key of
                   None \<Rightarrow> None
                 | Some (txt, expiry) \<Rightarrow> if now w < expiry then Some txt else None),
            record_call (Redis_get key) w))"

definition redisClient_set :: "fault \<Rightarrow> string \<Rightarrow> json_text \<Rightarrow> nat \<Rightarrow> world \<Rightarrow> (error + unit) \<times> world" where
  "redisClient_set f key txt ex w =
     (if f (length (calls w)) (Redis_set key txt ex)
      then (Inl RedisError, record_call (Redis_set key txt ex) w)
      else (Inr (), record_call (Redis_set key txt ex) (w\<lparr>redis := (redis w)(key \<mapsto> (txt, now w + ex))\<rparr>)))"

definition alertRule_findMany :: "fault \<Rightarrow> string \<Rightarrow> world \<Rightarrow> (error + AlertRule list) \<times> world" where
  "alertRule_findMany f metricId w =
     (if f (length (calls w)) (Find_many metricId)
      then (Inl PrismaError, record_call (Find_many metricId) w)
      else (Inr (filter (\<lambda>r. ar_metric_id r = metricId) (alert_rules w)),
            record_call (Find_many metricId) w))"

definition metric_findUnique :: "fault \<Rightarrow> string \<Rightarrow> world \<Rightarrow> (error + Metric option) \<times> world" where
  "metric_findUnique f metricId w =
     (if f (length (calls w)) (Find_unique metricId)
      then (Inl PrismaError, record_call (Find_unique metricId) w)
      else (Inr (find (\<lambda>m. m_id m = metricId) (metrics w)),
            record_call (Find_unique metricId) w))"

definition alert_create :: "fault \<Rightarrow> alertData \<Rightarrow> world \<Rightarrow> (error + Alert) \<times> world" where
  "alert_create f d w =
     (if f (length (calls w)) (Alert_create d)
      then (Inl PrismaError, record_call (Alert_create d) w)
      else (let a = \<lparr>alert_id = length (alerts w), created_at = now w, data = d\<rparr>
            in (Inr a, record_call (Alert_create d) (w\<lparr>alerts := alerts w @ [a]\<rparr>))))"

definition io_emit :: "fault \<Rightarrow> string \<Rightarrow> string \<Rightarrow> Alert \<Rightarrow> world \<Rightarrow> (error + unit) \<times> world" where
  "io_emit f room event a w =
     (if f (length (calls w)) (Emit room event a)
      then (Inl SocketError, record_call (Emit room event a) w)
      else (Inr (), record_call (Emit room event a) (w\<lparr>emitted := emitted w @ [(room, event, a)]\<rparr>)))"

subsection \<open>checkRules\<close>

definition RULES_CACHE_TTL :: nat where
  "RULES_CACHE_TTL = 300"

text \<open>The switch on \<open>rule.condition\<close>; \<open>None\<close> is the \<open>default: continue\<close> branch.\<close>

definition conditionMet :: "string \<Rightarrow> number \<Rightarrow> number \<Rightarrow> bool option" where
  "conditionMet cond v t =
     (if cond = ''>'' then Some (num_val v > num_val t)
      else if cond = ''<'' then Some (num_val v < num_val t)
      else if cond = ''>='' then Some (num_val v \<ge> num_val t)
      else if cond = ''<='' then Some (num_val v \<le> num_val t)
      else if cond = ''=='' then Some (num_val v = num_val t)
      else if cond = ''!='' then Some (num_val v \<noteq> num_val t)
      else None)"

text \<open>Truthiness of \<open>metric.device.owner_id\<close>.\<close>

definition truthy :: "string option \<Rightarrow> bool" where
  "truthy s = (case s of None \<Rightarrow> False | Some t \<Rightarrow> t \<noteq> [])"

text \<open>
  Lines 47 to 56: the rules come from the cache when the cached text is truthy and parses
  to a truthy value, and from the store otherwise, in which case they are written back.
\<close>

definition load_rules :: "fault \<Rightarrow> string \<Rightarrow> string \<Rightarrow> world \<Rightarrow> (error + AlertRule list) \<times> world" where
  "load_rules f metricId cacheKey w =
     (case redisClient_get f cacheKey w of
        (Inl e, w1) \<Rightarrow> (Inl e, w1)
      | (Inr cached, w1) \<Rightarrow>
          (case (case cached of
                   None \<Rightarrow> Inr None
                 | Some txt \<Rightarrow> if txt = Empty_text then Inr None else JSON_parse txt) of
             Inl e \<Rightarrow> (Inl e, w1)
           | Inr (Some rules) \<Rightarrow> (Inr rules, w1)
           | Inr None \<Rightarrow>
               (case alertRule_findMany f metricId w1 of
                  (Inl e, w2) \<Rightarrow> (Inl e, w2)
                | (Inr rules, w2) \<Rightarrow>
                    (case redisClient_set f cacheKey (JSON_stringify rules) RULES_CACHE_TTL w2 of
                       (Inl e, w3) \<Rightarrow> (Inl e, w3)
                     | (Inr _, w3) \<Rightarrow> (Inr rules, w3)))))"

text \<open>Lines 64 to 97: the loop over the rules.  A throw ends the loop.\<close>

fun for_rules :: "fault \<Rightarrow> Reading \<Rightarrow> bool \<Rightarrow> Metric \<Rightarrow> AlertRule list \<Rightarrow> world \<Rightarrow> (error + unit) \<times> world" where
  "for_rules f reading io metric [] w = (Inr (), w)"
| "for_rules f reading io metric (rule # rest) w =
     (case conditionMet (ar_condition rule) (rd_value reading) (ar_threshold rule) of
        None \<Rightarrow> for_rules f reading io metric rest w
      | Some False \<Rightarrow> for_rules f reading io metric rest w
      | Some True \<Rightarrow>
          (let msg = generateMessage (ar_message_template rule) (m_name metric)
                       (rd_value reading) (ar_threshold rule);
               alertData = \<lparr>metric_id = rd_metric_id reading, reading_id = rd_id reading,
                            level = ar_level rule, status = ''new'',
                            threshold = ar_threshold rule, message = msg\<rparr>
           in case alert_create f alertData w of
                (Inl e, w1) \<Rightarrow> (Inl e, w1)
              | (Inr createdAlert, w1) \<Rightarrow>
                  if io \<and> truthy (dev_owner_id (m_device metric))
                  then (case io_emit f (''user:'' @ the (dev_owner_id (m_device metric)))
                               ''new_alert'' createdAlert w1 of
                          (Inl e, w2) \<Rightarrow> (Inl e, w2)
                        | (Inr _, w2) \<Rightarrow> for_rules f reading io metric rest w2)
                  else for_rules f reading io metric rest w1))"

text \<open>Lines 58 to 97: resolve the metric, return when it is not found, run the loop.\<close>

definition apply_rules :: "fault \<Rightarrow> Reading \<Rightarrow> bool \<Rightarrow> AlertRule list \<Rightarrow> world \<Rightarrow> (error + unit) \<times> world" where
  "apply_rules f reading io rules w =
     (case metric_findUnique f (rd_metric_id reading) w of
        (Inl e, w1) \<Rightarrow> (Inl e, w1)
      | (Inr None, w1) \<Rightarrow> (Inr (), w1)
      | (Inr (Some metric), w1) \<Rightarrow> for_rules f reading io metric rules w1)"

text \<open>The key of the cache entry, \<open>`alert_rules:${metricId}`\<close>.\<close>

definition cacheKey :: "string \<Rightarrow> string" where
  "cacheKey metricId = ''alert_rules:'' @ metricId"

text \<open>The body of the \<open>try\<close> block.\<close>

definition try_block :: "fault \<Rightarrow> Reading \<Rightarrow> bool \<Rightarrow> world \<Rightarrow> (error + unit) \<times> world" where
  "try_block f reading io w =
     (case load_rules f (rd_metric_id reading) (cacheKey (rd_metric_id reading)) w of
        (Inl e, w1) \<Rightarrow> (Inl e, w1)
      | (Inr rules, w1) \<Rightarrow> apply_rules f reading io rules w1)"

text \<open>The \<open>catch\<close> clause writes the error to the console with the reading's id.\<close>

definition console_error :: "string \<Rightarrow> error \<Rightarrow> world \<Rightarrow> world" where
  "console_error msg e w = w\<lparr>console := console w @ [(msg, e)]\<rparr>"

definition catch_log :: "Reading \<Rightarrow> (error + unit) \<times> world \<Rightarrow> (error + unit) \<times> world" where
  "catch_log reading res =
     (case res of
        (Inl e, w1) \<Rightarrow>
          (Inr (), console_error (''Error in checkRules for reading '' @ rd_id reading @ '':'') e w1)
      | (Inr u, w1) \<Rightarrow> (Inr (), w1))"

definition checkRules :: "fault \<Rightarrow> Reading \<Rightarrow> bool \<Rightarrow> world \<Rightarrow> (error + unit) \<times> world" where
  "checkRules f reading io w = catch_log reading (try_block f reading io w)"

subsection \<open>Observations on the record of calls\<close>

fun is_rule_query :: "call \<Rightarrow> bool" where
  "is_rule_query (Find_many m) = True"
| "is_rule_query c = False"

fun is_emit :: "call \<Rightarrow> bool" where
  "is_emit (Emit room event a) = True"
| "is_emit c = False"

definition rule_queries :: "world \<Rightarrow> call list" where
  "rule_queries w = filter is_rule_query (calls w)"

text \<open>
  What the loop is expected to hand to \<open>prisma.alert.create\<close> for a rule that fires, the
  room and the gate of the publish.
\<close>

definition fires :: "Reading \<Rightarrow> AlertRule \<Rightarrow> bool" where
  "fires reading rule =
     (conditionMet (ar_condition rule) (rd_value reading) (ar_threshold rule) = Some True)"

definition alertData_of :: "Reading \<Rightarrow> Metric \<Rightarrow> AlertRule \<Rightarrow> alertData" where
  "alertData_of reading metric rule =
     \<lparr>metric_id = rd_metric_id reading, reading_id = rd_id reading, level = ar_level rule,
      status = ''new'', threshold = ar_threshold rule,
      message = generateMessage (ar_message_template rule) (m_name metric)
                  (rd_value reading) (ar_threshold rule)\<rparr>"

definition room_of :: "Metric \<Rightarrow> string" where
  "room_of metric = ''user:'' @ the (dev_owner_id (m_device metric))"

definition publishes :: "bool \<Rightarrow> Metric \<Rightarrow> bool" where
  "publishes io metric = (io \<and> truthy (dev_owner_id (m_device metric)))"

subsection \<open>Fixtures of the unit tests\<close>

definition ex_reading :: Reading where
  "ex_reading = \<lparr>rd_id = ''reading-123'', rd_metric_id = ''metric-123'', rd_timestamp = 0,
                  rd_value = Number 355 1\<rparr>"

definition ex_rule :: AlertRule where
  "ex_rule = \<lparr>ar_id = ''rule-123'', ar_metric_id = ''metric-123'', ar_condition = ''>'',
               ar_threshold = Number 30 0, ar_level = ''critical'',
               ar_message_template = ''{metricName} is {value}, exceeding {threshold}''\<rparr>"

definition ex_rule2 :: AlertRule where
  "ex_rule2 = \<lparr>ar_id = ''rule-2'', ar_metric_id = ''metric-123'', ar_condition = ''>'',
                ar_threshold = Number 25 0, ar_level = ''warning'',
                ar_message_template = ''{metricName} is {value}, exceeding {threshold}''\<rparr>"

definition ex_metric :: Metric where
  "ex_metric = \<lparr>m_id = ''metric-123'', m_name = ''Temperature'', m_unit = ''C'',
                 m_device = \<lparr>dev_id = ''device-123'', dev_owner_id = Some ''user-123''\<rparr>\<rparr>"

text \<open>A world with an empty cache and one rule in the store.\<close>

definition ex_world :: world where
  "ex_world = \<lparr>now = 1000, redis = Map.empty, alert_rules = [ex_rule], metrics = [ex_metric],
                alerts = [], emitted = [], console = [], calls = []\<rparr>"

text \<open>A world whose cache holds two rules that both fire on the reading.\<close>

definition ex_world_cached :: world where
  "ex_world_cached =
     \<lparr>now = 1000,
      redis = [''alert_rules:metric-123'' \<mapsto> (JSON_stringify [ex_rule, ex_rule2], 1200)],
      alert_rules = [ex_rule, ex_rule2], metrics = [ex_metric],
      alerts = [], emitted = [], console = [], calls = []\<rparr>"

text \<open>The world of \<open>ex_world\<close> with the owner id of the metric's device replaced.\<close>

definition ex_world_owned_by :: "string option \<Rightarrow> world" where
  "ex_world_owned_by owner =
     \<lparr>now = 1000, redis = Map.empty, alert_rules = [ex_rule],
      metrics = [\<lparr>m_id = ''metric-123'', m_name = ''Temperature'', m_unit = ''C'',
                 m_device = \<lparr>dev_id = ''device-123'', dev_owner_id = owner\<rparr>\<rparr>],
      alerts = [], emitted = [], console = [], calls = []\<rparr>"

definition no_fault :: fault where
  "no_fault n c = False"

text \<open>\<open>fail_at k\<close> makes the call with sequence number \<open>k\<close> (counted from 0) throw.\<close>

definition fail_at :: "nat \<Rightarrow> fault" where
  "fail_at k n c = (n = k)"

section \<open>Message rendering\<close>

lemma find_first_absent:
  "CHR ''{'' \<notin> set s \<Longrightarrow> find_first (CHR ''{'' # p) s = None"
  by (induction s) auto

lemma find_first_skip:
  "CHR ''{'' \<notin> set a \<Longrightarrow>
   find_first (CHR ''{'' # p) (a @ s) = map_option (\<lambda>(x, y). (a @ x, y)) (find_first (CHR ''{'' # p) s)"
proof (induction a)
  case Nil
  show ?case by (simp add: option.map_ident case_prod_eta)
next
  case (Cons c a)
  then have "c \<noteq> CHR ''{''" and "CHR ''{'' \<notin> set a" by auto
  then show ?case using Cons.IH
    by (simp add: option.map_comp comp_def case_prod_beta)
qed

lemma find_first_here:
  "find_first (CHR ''{'' # p) (CHR ''{'' # p @ b) = Some ([], b)"
  by simp

lemma find_first_at:
  "CHR ''{'' \<notin> set a \<Longrightarrow> find_first (CHR ''{'' # p) (a @ CHR ''{'' # p @ b) = Some (a, b)"
  by (simp add: find_first_skip del: find_first.simps add: find_first_here)

lemma GetSubstitution_plain:
  "CHR ''$'' \<notin> set rep \<Longrightarrow> GetSubstitution m pre post rep = rep"
  by (induction m pre post rep rule: GetSubstitution.induct) auto

lemma String_replace_at:
  "CHR ''{'' \<notin> set a \<Longrightarrow> CHR ''$'' \<notin> set rep \<Longrightarrow>
   String_replace (a @ CHR ''{'' # p @ b) (CHR ''{'' # p) rep = a @ rep @ b"
  by (simp add: String_replace_def find_first_at GetSubstitution_plain del: find_first.simps)

lemma String_replace_absent:
  "CHR ''{'' \<notin> set s \<Longrightarrow> String_replace s (CHR ''{'' # p) rep = s"
  by (simp add: String_replace_def find_first_absent del: find_first.simps)


lemma digit_char_plain:
  assumes "d < 10"
  shows "digit_char d \<noteq> CHR ''{'' \<and> digit_char d \<noteq> CHR ''$''"
proof -
  have "digit_char d \<in> set ''0123456789''"
    unfolding digit_char_def using assms by (intro nth_mem) simp
  moreover have "\<forall>c \<in> set ''0123456789''. c \<noteq> CHR ''{'' \<and> c \<noteq> CHR ''$''"
    by simp
  ultimately show ?thesis by auto
qed

lemma digits_of_plain:
  "c \<in> set (digits_of n) \<Longrightarrow> c \<noteq> CHR ''{'' \<and> c \<noteq> CHR ''$''"
proof (induction n rule: digits_of.induct)
  case (1 n)
  show ?case
  proof (cases "n < 10")
    case True
    then have "digits_of n = [digit_char n]" by (subst digits_of.simps) simp
    with 1(2) True digit_char_plain [of n] show ?thesis by simp
  next
    case False
    then have eq: "digits_of n = digits_of (n div 10) @ [digit_char (n mod 10)]"
      by (subst digits_of.simps) simp
    have "n mod 10 < 10" by simp
    then have last: "digit_char (n mod 10) \<noteq> CHR ''{'' \<and> digit_char (n mod 10) \<noteq> CHR ''$''"
      by (rule digit_char_plain)
    from 1(2) have "c \<in> set (digits_of (n div 10) @ [digit_char (n mod 10)])"
      unfolding eq .
    then have "c \<in> set (digits_of (n div 10)) \<or> c = digit_char (n mod 10)" by auto
    then show ?thesis using 1(1) [OF False] last by auto
  qed
qed

lemma strip_zeros_plain:
  "c \<in> set (strip_zeros (digits_of n)) \<Longrightarrow> c \<noteq> CHR ''{'' \<and> c \<noteq> CHR ''$''"
proof -
  assume "c \<in> set (strip_zeros (digits_of n))"
  then have "c \<in> set (dropWhile (\<lambda>c. c = CHR ''0'') (rev (digits_of n)))"
    by (simp add: strip_zeros_def)
  then have "c \<in> set (rev (digits_of n))" by (rule set_dropWhileD)
  then show ?thesis using digits_of_plain [of c n] by simp
qed


lemma strip_zeros_no_brace:
  "CHR ''{'' \<notin> set (strip_zeros (digits_of n))" "CHR ''$'' \<notin> set (strip_zeros (digits_of n))"
  using strip_zeros_plain by blast+

lemma digits_of_no_brace:
  "CHR ''{'' \<notin> set (digits_of n)" "CHR ''$'' \<notin> set (digits_of n)"
  using digits_of_plain by blast+

lemma take_no_brace:
  "CHR ''{'' \<notin> set (take j (strip_zeros (digits_of n)))"
  "CHR ''$'' \<notin> set (take j (strip_zeros (digits_of n)))"
  using strip_zeros_no_brace [of n] in_set_takeD [of _ j "strip_zeros (digits_of n)"] by blast+

lemma drop_no_brace:
  "CHR ''{'' \<notin> set (drop j (strip_zeros (digits_of n)))"
  "CHR ''$'' \<notin> set (drop j (strip_zeros (digits_of n)))"
  using strip_zeros_no_brace [of n] in_set_dropD [of _ j "strip_zeros (digits_of n)"] by blast+

lemma number_toString_plain:
  "CHR ''{'' \<notin> set (number_toString x)" "CHR ''$'' \<notin> set (number_toString x)"
  unfolding number_toString_def Let_def
  by (simp_all add: strip_zeros_no_brace digits_of_no_brace take_no_brace drop_no_brace)

lemma String_replace_skip:
  assumes "CHR ''{'' \<notin> set x" "CHR ''$'' \<notin> set rep"
  shows "String_replace (x @ s) (CHR ''{'' # p) rep = x @ String_replace s (CHR ''{'' # p) rep"
proof (cases "find_first (CHR ''{'' # p) s")
  case None
  then show ?thesis using assms
    by (simp add: String_replace_def find_first_skip del: find_first.simps)
next
  case (Some pr)
  then show ?thesis using assms
    by (cases pr) (simp add: String_replace_def find_first_skip GetSubstitution_plain del: find_first.simps)
qed

lemma String_replace_value_after_threshold:
  assumes "CHR ''$'' \<notin> set rep"
  shows "String_replace (''{threshold}'' @ s) ''{value}'' rep
           = ''{threshold}'' @ String_replace s ''{value}'' rep"
proof (cases "find_first ''{value}'' s")
  case None
  then show ?thesis by (simp add: String_replace_def)
next
  case (Some pr)
  then show ?thesis using assms
    by (cases pr) (simp add: String_replace_def GetSubstitution_plain)
qed

text \<open>
  C10, as stated, fails.  When the template has a \<open>{value}\<close> before \<open>{metricName}\<close>,
  that one is the first occurrence and takes the substitution, and the \<open>{value}\<close> brought in
  by the metric name stays verbatim; when the name holds \<open>{value}\<close> twice, the second stays
  verbatim.
\<close>

theorem generateMessage_sequential_counterexample:
  "generateMessage ''{value} {metricName}'' ''A{value}B'' (Number 5 0) (Number 7 0) = ''5 A{value}B''
   \<and> generateMessage ''{metricName}'' ''{value}{value}'' (Number 5 0) (Number 7 0) = ''5{value}''"
  by (simp add: generateMessage_def String_replace_def number_toString_def digits_of.simps
      strip_zeros_def digit_char_def)

text \<open>
  C10, amended: the three substitutions run one after the other, so a placeholder brought
  in by the metric name is substituted by the later steps when it is the first of its kind.
  For a template with no brace before \<open>{metricName}\<close> and a metric name without dollar
  sign whose first brace opens \<open>{value}\<close> (or \<open>{threshold}\<close>), the message carries the
  reading's value (or the rule's threshold) at that position of the name, not the text of
  the placeholder.
\<close>

theorem generateMessage_sequential:
  assumes nb: "CHR ''{'' \<notin> set p \<union> set a"
    and nd: "CHR ''$'' \<notin> set a \<union> set b"
  shows "generateMessage (p @ ''{metricName}'' @ q) (a @ ''{value}'' @ b) v t
           = p @ a @ number_toString v @ String_replace (b @ q) ''{threshold}'' (number_toString t)
       \<and> generateMessage (p @ ''{metricName}'' @ q) (a @ ''{threshold}'' @ b) v t
           = p @ a @ number_toString t @ String_replace (b @ q) ''{value}'' (number_toString v)"
proof
  let ?name = "a @ ''{value}'' @ b"
  have "CHR ''$'' \<notin> set ?name" using nd by simp
  then have s1: "String_replace (p @ ''{metricName}'' @ q) ''{metricName}'' ?name = p @ ?name @ q"
    using String_replace_at [of p ?name "''metricName}''" q] nb by simp
  have s2: "String_replace ((p @ a) @ ''{value}'' @ (b @ q)) ''{value}'' (number_toString v)
              = (p @ a) @ number_toString v @ (b @ q)"
    using String_replace_at [of "p @ a" "number_toString v" "''value}''" "b @ q"] nb
      number_toString_plain [of v] by simp
  have "CHR ''{'' \<notin> set ((p @ a) @ number_toString v)"
    using nb number_toString_plain [of v] by simp
  then have s3: "String_replace (((p @ a) @ number_toString v) @ (b @ q)) ''{threshold}'' (number_toString t)
              = ((p @ a) @ number_toString v) @ String_replace (b @ q) ''{threshold}'' (number_toString t)"
    using number_toString_plain(2) [of t] by (rule String_replace_skip)
  show "generateMessage (p @ ''{metricName}'' @ q) ?name v t
      = p @ a @ number_toString v @ String_replace (b @ q) ''{threshold}'' (number_toString t)"
    unfolding generateMessage_def s1 using s2 s3 by simp
next
  let ?name = "a @ ''{threshold}'' @ b"
  let ?rest = "String_replace (b @ q) ''{value}'' (number_toString v)"
  have "CHR ''$'' \<notin> set ?name" using nd by simp
  then have s1: "String_replace (p @ ''{metricName}'' @ q) ''{metricName}'' ?name = p @ ?name @ q"
    using String_replace_at [of p ?name "''metricName}''" q] nb by simp
  have "CHR ''{'' \<notin> set (p @ a)" using nb by simp
  then have "String_replace ((p @ a) @ ''{threshold}'' @ (b @ q)) ''{value}'' (number_toString v)
              = (p @ a) @ String_replace (''{threshold}'' @ (b @ q)) ''{value}'' (number_toString v)"
    using number_toString_plain(2) [of v] by (rule String_replace_skip)
  also have "\<dots> = (p @ a) @ ''{threshold}'' @ ?rest"
    using String_replace_value_after_threshold [of "number_toString v" "b @ q"]
      number_toString_plain(2) [of v] by simp
  finally have s2: "String_replace ((p @ a) @ ''{threshold}'' @ (b @ q)) ''{value}'' (number_toString v)
              = (p @ a) @ ''{threshold}'' @ ?rest" .
  have s3: "String_replace ((p @ a) @ ''{threshold}'' @ ?rest) ''{threshold}'' (number_toString t)
              = (p @ a) @ number_toString t @ ?rest"
    using String_replace_at [of "p @ a" "number_toString t" "''threshold}''" ?rest] nb
      number_toString_plain [of t] by simp
  have "generateMessage (p @ ''{metricName}'' @ q) ?name v t
      = String_replace (String_replace ((p @ a) @ ''{threshold}'' @ (b @ q)) ''{value}'' (number_toString v))
          ''{threshold}'' (number_toString t)"
    unfolding generateMessage_def s1 by simp
  also have "\<dots> = (p @ a) @ number_toString t @ ?rest"
    unfolding s2 s3 ..
  finally show "generateMessage (p @ ''{metricName}'' @ q) ?name v t
      = p @ a @ number_toString t @ ?rest" by simp
qed

theorem generateMessage_sequential_witness:
  "generateMessage ''{metricName}'' ''A{value}B'' (Number 5 0) (Number 7 0) = ''A5B''
   \<and> generateMessage ''{metricName}'' ''A{threshold}B'' (Number 5 0) (Number 7 0) = ''A7B''"
proof -
  have n5: "number_toString (Number 5 0) = ''5''"
    by (simp add: number_toString_def digits_of.simps strip_zeros_def digit_char_def)
  have n7: "number_toString (Number 7 0) = ''7''"
    by (simp add: number_toString_def digits_of.simps strip_zeros_def digit_char_def)
  show ?thesis
    using generateMessage_sequential [of "[]" "''A''" "''B''" "[]" "Number 5 0" "Number 7 0"]
    by (simp add: n5 n7 String_replace_def)
qed

text \<open>
  C2: on the template of the unit test "should handle multiple occurrences of same
  variable", only the first occurrence of each placeholder is replaced; the test expects
  \<open>Temp: 25, Temp: 25\<close>.
\<close>

theorem generateMessage_repeated_placeholder:
  "generateMessage ''{metricName}: {value}, {metricName}: {value}'' ''Temp'' (Number 25 0) (Number 20 0)
     = ''Temp: 25, {metricName}: {value}''"
  by (simp add: generateMessage_def String_replace_def number_toString_def digits_of.simps
      strip_zeros_def digit_char_def)

section \<open>The loop over the rules\<close>

declare for_rules.simps(2) [simp del]

lemma for_rules_skip:
  "\<not> fires r rule \<Longrightarrow> for_rules f r io m (rule # rest) w = for_rules f r io m rest w"
  by (cases "conditionMet (ar_condition rule) (rd_value r) (ar_threshold rule)")
     (auto simp: fires_def for_rules.simps(2))

lemma for_rules_fire:
  "fires r rule \<Longrightarrow>
   for_rules f r io m (rule # rest) w =
     (case alert_create f (alertData_of r m rule) w of
        (Inl e, w1) \<Rightarrow> (Inl e, w1)
      | (Inr a, w1) \<Rightarrow>
          if publishes io m
          then (case io_emit f (room_of m) ''new_alert'' a w1 of
                  (Inl e, w2) \<Rightarrow> (Inl e, w2)
                | (Inr u, w2) \<Rightarrow> for_rules f r io m rest w2)
          else for_rules f r io m rest w1)"
  unfolding alertData_of_def publishes_def room_of_def by (simp add: fires_def for_rules.simps(2))

lemma alert_create_fail:
  "f (length (calls w)) (Alert_create d) \<Longrightarrow>
   alert_create f d w = (Inl PrismaError, w\<lparr>calls := calls w @ [Alert_create d]\<rparr>)"
  by (simp add: alert_create_def record_call_def)

lemma alert_create_ok:
  "\<not> f (length (calls w)) (Alert_create d) \<Longrightarrow>
   alert_create f d w =
     (Inr \<lparr>alert_id = length (alerts w), created_at = now w, data = d\<rparr>,
      w\<lparr>alerts := alerts w @ [\<lparr>alert_id = length (alerts w), created_at = now w, data = d\<rparr>],
        calls := calls w @ [Alert_create d]\<rparr>)"
  by (simp add: alert_create_def record_call_def Let_def)

lemma io_emit_fail:
  "f (length (calls w)) (Emit room ev a) \<Longrightarrow>
   io_emit f room ev a w = (Inl SocketError, w\<lparr>calls := calls w @ [Emit room ev a]\<rparr>)"
  by (simp add: io_emit_def record_call_def)

lemma io_emit_ok:
  "\<not> f (length (calls w)) (Emit room ev a) \<Longrightarrow>
   io_emit f room ev a w =
     (Inr (), w\<lparr>emitted := emitted w @ [(room, ev, a)], calls := calls w @ [Emit room ev a]\<rparr>)"
  by (simp add: io_emit_def record_call_def)

lemma for_rules_frame:
  "console (snd (for_rules f r io m rules w)) = console w
   \<and> redis (snd (for_rules f r io m rules w)) = redis w
   \<and> now (snd (for_rules f r io m rules w)) = now w
   \<and> metrics (snd (for_rules f r io m rules w)) = metrics w
   \<and> alert_rules (snd (for_rules f r io m rules w)) = alert_rules w"
proof (induction rules arbitrary: w)
  case Nil
  show ?case by simp
next
  case (Cons rule rest)
  show ?case
  proof (cases "fires r rule")
    case False
    then show ?thesis using Cons.IH by (simp add: for_rules_skip)
  next
    case True
    show ?thesis
      unfolding for_rules_fire [OF True]
      using Cons.IH
      by (simp add: alert_create_def io_emit_def record_call_def Let_def split: prod.split sum.split)
  qed
qed

lemma for_rules_trace:
  "\<exists>new cs. alerts (snd (for_rules f r io m rules w)) = alerts w @ new
     \<and> calls (snd (for_rules f r io m rules w)) = calls w @ cs
     \<and> filter is_emit cs =
         (if publishes io m then map (Emit (room_of m) ''new_alert'') new else [])
     \<and> filter is_rule_query cs = []"
proof (induction rules arbitrary: w)
  case Nil
  show ?case by simp
next
  case (Cons rule rest)
  show ?case
  proof (cases "fires r rule")
    case False
    then show ?thesis using Cons.IH [of w] by (simp add: for_rules_skip)
  next
    case True
    let ?d = "alertData_of r m rule"
    let ?a = "\<lparr>alert_id = length (alerts w), created_at = now w, data = ?d\<rparr>"
    let ?w1 = "w\<lparr>alerts := alerts w @ [?a], calls := calls w @ [Alert_create ?d]\<rparr>"
    let ?e = "Emit (room_of m) ''new_alert'' ?a"
    let ?w2 = "?w1\<lparr>emitted := emitted ?w1 @ [(room_of m, ''new_alert'', ?a)],
                   calls := calls ?w1 @ [?e]\<rparr>"
    show ?thesis
    proof (cases "f (length (calls w)) (Alert_create ?d)")
      case True
      then have "snd (for_rules f r io m (rule # rest) w) = w\<lparr>calls := calls w @ [Alert_create ?d]\<rparr>"
        by (simp add: for_rules_fire [OF \<open>fires r rule\<close>] alert_create_fail)
      then show ?thesis by simp
    next
      case created: False
      show ?thesis
      proof (cases "publishes io m")
        case False
        then have eq: "for_rules f r io m (rule # rest) w = for_rules f r io m rest ?w1"
          by (simp add: for_rules_fire [OF \<open>fires r rule\<close>] alert_create_ok created)
        from Cons.IH [of ?w1] obtain new cs where
          "alerts (snd (for_rules f r io m rest ?w1)) = alerts ?w1 @ new"
          "calls (snd (for_rules f r io m rest ?w1)) = calls ?w1 @ cs"
          "filter is_emit cs = []" "filter is_rule_query cs = []"
          using False by auto
        then have "alerts (snd (for_rules f r io m (rule # rest) w)) = alerts w @ (?a # new)
          \<and> calls (snd (for_rules f r io m (rule # rest) w)) = calls w @ (Alert_create ?d # cs)
          \<and> filter is_emit (Alert_create ?d # cs) = []
          \<and> filter is_rule_query (Alert_create ?d # cs) = []"
          unfolding eq by simp
        then show ?thesis using False by metis
      next
        case gate: True
        show ?thesis
        proof (cases "f (length (calls ?w1)) ?e")
          case True
          then have "snd (for_rules f r io m (rule # rest) w) = ?w1\<lparr>calls := calls ?w1 @ [?e]\<rparr>"
            by (simp add: for_rules_fire [OF \<open>fires r rule\<close>] alert_create_ok created gate
                io_emit_fail)
          then have "alerts (snd (for_rules f r io m (rule # rest) w)) = alerts w @ [?a]
            \<and> calls (snd (for_rules f r io m (rule # rest) w)) = calls w @ [Alert_create ?d, ?e]
            \<and> filter is_emit [Alert_create ?d, ?e] = map (Emit (room_of m) ''new_alert'') [?a]
            \<and> filter is_rule_query [Alert_create ?d, ?e] = []"
            by simp
          then show ?thesis using gate by metis
        next
          case False
          then have eq: "for_rules f r io m (rule # rest) w = for_rules f r io m rest ?w2"
            by (simp add: for_rules_fire [OF \<open>fires r rule\<close>] alert_create_ok created gate
                io_emit_ok)
          from Cons.IH [of ?w2] obtain new cs where
            "alerts (snd (for_rules f r io m rest ?w2)) = alerts ?w2 @ new"
            "calls (snd (for_rules f r io m rest ?w2)) = calls ?w2 @ cs"
            "filter is_emit cs = map (Emit (room_of m) ''new_alert'') new"
            "filter is_rule_query cs = []"
            using gate by auto
          then have "alerts (snd (for_rules f r io m (rule # rest) w)) = alerts w @ (?a # new)
            \<and> calls (snd (for_rules f r io m (rule # rest) w)) = calls w @ (Alert_create ?d # ?e # cs)
            \<and> filter is_emit (Alert_create ?d # ?e # cs)
                = map (Emit (room_of m) ''new_alert'') (?a # new)
            \<and> filter is_rule_query (Alert_create ?d # ?e # cs) = []"
            unfolding eq by simp
          then show ?thesis using gate by metis
        qed
      qed
    qed
  qed
qed

lemma for_rules_no_fault:
  assumes nf: "\<And>n c. \<not> f n c"
  shows "\<exists>new. for_rules f r io m rules w =
      (Inr (), w\<lparr>alerts := alerts w @ new,
                 emitted := emitted w @
                   (if publishes io m then map (\<lambda>a. (room_of m, ''new_alert'', a)) new else []),
                 calls := calls w @
                   concat (map (\<lambda>a. Alert_create (data a) #
                     (if publishes io m then [Emit (room_of m) ''new_alert'' a] else [])) new)\<rparr>)
    \<and> map data new = map (alertData_of r m) (filter (fires r) rules)"
proof (induction rules arbitrary: w)
  case Nil
  have "for_rules f r io m [] w = (Inr (), w\<lparr>alerts := alerts w @ [],
          emitted := emitted w @ (if publishes io m then map (\<lambda>a. (room_of m, ''new_alert'', a)) [] else []),
          calls := calls w @ concat (map (\<lambda>a. Alert_create (data a) #
                     (if publishes io m then [Emit (room_of m) ''new_alert'' a] else [])) [])\<rparr>)
     \<and> map data [] = map (alertData_of r m) (filter (fires r) [])"
    by simp
  then show ?case by blast
next
  case (Cons rule rest)
  show ?case
  proof (cases "fires r rule")
    case False
    then show ?thesis using Cons.IH [of w] by (simp add: for_rules_skip)
  next
    case True
    let ?d = "alertData_of r m rule"
    let ?a = "\<lparr>alert_id = length (alerts w), created_at = now w, data = ?d\<rparr>"
    let ?w1 = "w\<lparr>alerts := alerts w @ [?a], calls := calls w @ [Alert_create ?d]\<rparr>"
    let ?e = "Emit (room_of m) ''new_alert'' ?a"
    let ?w2 = "?w1\<lparr>emitted := emitted ?w1 @ [(room_of m, ''new_alert'', ?a)],
                   calls := calls ?w1 @ [?e]\<rparr>"
    show ?thesis
    proof (cases "publishes io m")
      case False
      have eq: "for_rules f r io m (rule # rest) w = for_rules f r io m rest ?w1"
        using False by (simp add: for_rules_fire [OF True] alert_create_ok nf)
      from Cons.IH [of ?w1] obtain new where
        run: "for_rules f r io m rest ?w1 =
               (Inr (), ?w1\<lparr>alerts := alerts ?w1 @ new, emitted := emitted ?w1 @ [],
                             calls := calls ?w1 @ concat (map (\<lambda>a. [Alert_create (data a)]) new)\<rparr>)"
        and dat: "map data new = map (alertData_of r m) (filter (fires r) rest)"
        using False by auto
      have "for_rules f r io m (rule # rest) w =
              (Inr (), w\<lparr>alerts := alerts w @ (?a # new),
                 emitted := emitted w @
                   (if publishes io m then map (\<lambda>a. (room_of m, ''new_alert'', a)) (?a # new) else []),
                 calls := calls w @
                   concat (map (\<lambda>a. Alert_create (data a) #
                     (if publishes io m then [Emit (room_of m) ''new_alert'' a] else [])) (?a # new))\<rparr>)
         \<and> map data (?a # new) = map (alertData_of r m) (filter (fires r) (rule # rest))"
        unfolding eq run using False True dat by simp
      then show ?thesis by blast
    next
      case gate: True
      have eq: "for_rules f r io m (rule # rest) w = for_rules f r io m rest ?w2"
        using gate by (simp add: for_rules_fire [OF True] alert_create_ok io_emit_ok nf)
      from Cons.IH [of ?w2] obtain new where
        run: "for_rules f r io m rest ?w2 =
               (Inr (), ?w2\<lparr>alerts := alerts ?w2 @ new,
                  emitted := emitted ?w2 @ map (\<lambda>a. (room_of m, ''new_alert'', a)) new,
                  calls := calls ?w2 @ concat (map (\<lambda>a. [Alert_create (data a),
                             Emit (room_of m) ''new_alert'' a]) new)\<rparr>)"
        and dat: "map data new = map (alertData_of r m) (filter (fires r) rest)"
        using gate by auto
      have "for_rules f r io m (rule # rest) w =
              (Inr (), w\<lparr>alerts := alerts w @ (?a # new),
                 emitted := emitted w @
                   (if publishes io m then map (\<lambda>a. (room_of m, ''new_alert'', a)) (?a # new) else []),
                 calls := calls w @
                   concat (map (\<lambda>a. Alert_create (data a) #
                     (if publishes io m then [Emit (room_of m) ''new_alert'' a] else [])) (?a # new))\<rparr>)
         \<and> map data (?a # new) = map (alertData_of r m) (filter (fires r) (rule # rest))"
        unfolding eq run using gate True dat by simp
      then show ?thesis by blast
    qed
  qed
qed

section \<open>checkRules as a whole\<close>

lemmas collaborator_defs =
  redisClient_get_def redisClient_set_def alertRule_findMany_def metric_findUnique_def
  alert_create_def io_emit_def record_call_def

lemma load_rules_frame:
  "console (snd (load_rules f mid key w)) = console w
   \<and> alerts (snd (load_rules f mid key w)) = alerts w
   \<and> emitted (snd (load_rules f mid key w)) = emitted w
   \<and> metrics (snd (load_rules f mid key w)) = metrics w
   \<and> alert_rules (snd (load_rules f mid key w)) = alert_rules w
   \<and> now (snd (load_rules f mid key w)) = now w"
  by (simp add: load_rules_def collaborator_defs split: option.split sum.split prod.split)

lemma load_rules_calls:
  "\<exists>cs. calls (snd (load_rules f mid key w)) = calls w @ cs \<and> filter is_emit cs = []"
  by (simp add: load_rules_def collaborator_defs split: option.split sum.split prod.split)

lemma apply_rules_console:
  "console (snd (apply_rules f r io rules w)) = console w"
  by (simp add: apply_rules_def metric_findUnique_def record_call_def for_rules_frame
      split: option.split)

lemma try_block_console:
  "console (snd (try_block f r io w)) = console w"
proof (cases "load_rules f (rd_metric_id r) (cacheKey (rd_metric_id r)) w")
  case (Pair res w1)
  have c1: "console w1 = console w"
    using load_rules_frame [of f "rd_metric_id r" "cacheKey (rd_metric_id r)" w] Pair
    by simp
  show ?thesis
  proof (cases res)
    case (Inl e)
    then show ?thesis using Pair c1 by (simp add: try_block_def)
  next
    case (Inr rules)
    then show ?thesis using Pair c1 by (simp add: try_block_def apply_rules_console)
  qed
qed

text \<open>
  C5: checkRules never raises.  Whatever calls fail, it returns normally; when the body of
  the \<open>try\<close> block throws, the error is written to the console together with the
  reading's id, and nothing else is written there.
\<close>

theorem checkRules_never_raises:
  "fst (checkRules f reading io w) = Inr ()
   \<and> (\<forall>e. fst (try_block f reading io w) = Inl e \<longrightarrow>
          console (snd (checkRules f reading io w)) =
            console w @ [(''Error in checkRules for reading '' @ rd_id reading @ '':'', e)])
   \<and> (fst (try_block f reading io w) = Inr () \<longrightarrow>
          console (snd (checkRules f reading io w)) = console w)"
proof (cases "try_block f reading io w")
  case (Pair res w1)
  have c1: "console w1 = console w"
    using try_block_console [of f reading io w] Pair by simp
  show ?thesis
    using Pair c1 by (cases res) (simp_all add: checkRules_def catch_log_def console_error_def)
qed

lemma ex_key: "cacheKey (rd_metric_id ex_reading) = ''alert_rules:metric-123''"
  by (simp add: ex_reading_def cacheKey_def)

lemma try_block_get_fails:
  "f (length (calls w)) (Redis_get (cacheKey (rd_metric_id r))) \<Longrightarrow>
   try_block f r io w = (Inl RedisError, record_call (Redis_get (cacheKey (rd_metric_id r))) w)"
  by (simp add: try_block_def load_rules_def redisClient_get_def)

theorem checkRules_never_raises_witness:
  "fst (checkRules (fail_at 0) ex_reading True ex_world) = Inr ()
   \<and> console (snd (checkRules (fail_at 0) ex_reading True ex_world)) =
       [(''Error in checkRules for reading reading-123:'', RedisError)]"
proof -
  have "fst (try_block (fail_at 0) ex_reading True ex_world) = Inl RedisError"
    by (simp add: try_block_get_fails fail_at_def ex_world_def)
  then show ?thesis
    using checkRules_never_raises [of "fail_at 0" ex_reading True ex_world]
    by (simp add: ex_world_def ex_reading_def)
qed

section \<open>The rule cache\<close>

lemma load_rules_hit:
  assumes "\<not> f (length (calls w)) (Redis_get key)"
    and "redis w key = Some (JSON_stringify rs, expiry)" and "now w < expiry"
  shows "load_rules f mid key w = (Inr rs, record_call (Redis_get key) w)"
  using assms by (simp add: load_rules_def redisClient_get_def JSON_stringify_def)

lemma load_rules_miss:
  assumes "\<not> f (length (calls w)) (Redis_get key)"
    and "redis w key = None \<or> (\<exists>txt expiry. redis w key = Some (txt, expiry) \<and> expiry \<le> now w)"
    and "\<not> f (Suc (length (calls w))) (Find_many mid)"
    and "\<not> f (Suc (Suc (length (calls w))))
            (Redis_set key (JSON_stringify (filter (\<lambda>r. ar_metric_id r = mid) (alert_rules w))) 300)"
  shows "load_rules f mid key w =
           (Inr (filter (\<lambda>r. ar_metric_id r = mid) (alert_rules w)),
            w\<lparr>redis := (redis w)(key \<mapsto>
                   (JSON_stringify (filter (\<lambda>r. ar_metric_id r = mid) (alert_rules w)), now w + 300)),
              calls := calls w @ [Redis_get key, Find_many mid,
                   Redis_set key (JSON_stringify (filter (\<lambda>r. ar_metric_id r = mid) (alert_rules w))) 300]\<rparr>)"
  using assms
  by (auto simp: load_rules_def redisClient_get_def alertRule_findMany_def redisClient_set_def
      record_call_def RULES_CACHE_TTL_def)

lemma load_rules_set_fails:
  assumes "\<not> f (length (calls w)) (Redis_get key)"
    and "redis w key = None \<or> (\<exists>txt expiry. redis w key = Some (txt, expiry) \<and> expiry \<le> now w)"
    and "\<not> f (Suc (length (calls w))) (Find_many mid)"
    and "f (Suc (Suc (length (calls w))))
            (Redis_set key (JSON_stringify (filter (\<lambda>r. ar_metric_id r = mid) (alert_rules w))) 300)"
  shows "load_rules f mid key w =
           (Inl RedisError,
            w\<lparr>calls := calls w @ [Redis_get key, Find_many mid,
                   Redis_set key (JSON_stringify (filter (\<lambda>r. ar_metric_id r = mid) (alert_rules w))) 300]\<rparr>)"
  using assms
  by (auto simp: load_rules_def redisClient_get_def alertRule_findMany_def redisClient_set_def
      record_call_def RULES_CACHE_TTL_def)

lemma apply_rules_queries:
  "rule_queries (snd (apply_rules f r io rules w)) = rule_queries w"
proof (cases "f (length (calls w)) (Find_unique (rd_metric_id r))")
  case True
  then show ?thesis
    by (simp add: apply_rules_def metric_findUnique_def record_call_def rule_queries_def)
next
  case False
  let ?w1 = "record_call (Find_unique (rd_metric_id r)) w"
  show ?thesis
  proof (cases "find (\<lambda>m. m_id m = rd_metric_id r) (metrics w)")
    case None
    then show ?thesis using False
      by (simp add: apply_rules_def metric_findUnique_def record_call_def rule_queries_def)
  next
    case (Some m)
    then have eq: "apply_rules f r io rules w = for_rules f r io m rules ?w1"
      using False by (simp add: apply_rules_def metric_findUnique_def)
    obtain cs where "calls (snd (for_rules f r io m rules ?w1)) = calls ?w1 @ cs"
      and "filter is_rule_query cs = []"
      using for_rules_trace [of f r io m rules ?w1] by blast
    then show ?thesis unfolding eq by (simp add: rule_queries_def record_call_def)
  qed
qed

lemma catch_log_calls: "calls (snd (catch_log r res)) = calls (snd res)"
  by (cases res) (simp add: catch_log_def console_error_def split: sum.split)

lemma catch_log_queries: "rule_queries (snd (catch_log r res)) = rule_queries (snd res)"
  by (simp add: rule_queries_def catch_log_calls)

text \<open>
  C7: the rule cache is read through.  When the read of the cache succeeds and the entry
  under \<open>alert_rules:\<close> followed by the metric id is the serialisation of a rule list and has
  not expired, checkRules evaluates with these rules and makes no rule query to the store.
  When there is no entry, or it has expired, and the store query and the cache write succeed,
  checkRules makes exactly one rule query, for the rules of this metric, writes their
  serialisation under the key with a lifetime of 300 seconds and evaluates with them.
\<close>

theorem rule_cache_read_through:
  assumes get_ok: "\<not> f (length (calls w)) (Redis_get (cacheKey (rd_metric_id reading)))"
  shows "(\<forall>rs expiry.
            redis w (cacheKey (rd_metric_id reading)) = Some (JSON_stringify rs, expiry)
            \<and> now w < expiry \<longrightarrow>
              checkRules f reading io w =
                catch_log reading (apply_rules f reading io rs
                   (record_call (Redis_get (cacheKey (rd_metric_id reading))) w))
              \<and> rule_queries (snd (checkRules f reading io w)) = rule_queries w)
       \<and> (let key = cacheKey (rd_metric_id reading);
               found = filter (\<lambda>r. ar_metric_id r = rd_metric_id reading) (alert_rules w);
               w3 = w\<lparr>redis := (redis w)(key \<mapsto> (JSON_stringify found, now w + 300)),
                      calls := calls w @ [Redis_get key, Find_many (rd_metric_id reading),
                                          Redis_set key (JSON_stringify found) 300]\<rparr>
           in (redis w key = None \<or> (\<exists>txt expiry. redis w key = Some (txt, expiry) \<and> expiry \<le> now w))
              \<and> \<not> f (Suc (length (calls w))) (Find_many (rd_metric_id reading))
              \<and> \<not> f (Suc (Suc (length (calls w)))) (Redis_set key (JSON_stringify found) 300) \<longrightarrow>
                checkRules f reading io w = catch_log reading (apply_rules f reading io found w3)
                \<and> rule_queries (snd (checkRules f reading io w))
                    = rule_queries w @ [Find_many (rd_metric_id reading)])"
proof (intro conjI allI impI)
  fix rs expiry
  assume hit: "redis w (cacheKey (rd_metric_id reading)) = Some (JSON_stringify rs, expiry)
     \<and> now w < expiry"
  have lr: "load_rules f (rd_metric_id reading) (cacheKey (rd_metric_id reading)) w
      = (Inr rs, record_call (Redis_get (cacheKey (rd_metric_id reading))) w)"
    using load_rules_hit [of f w "cacheKey (rd_metric_id reading)" rs expiry "rd_metric_id reading"]
      get_ok hit by blast
  show c: "checkRules f reading io w =
      catch_log reading (apply_rules f reading io rs
         (record_call (Redis_get (cacheKey (rd_metric_id reading))) w))"
    unfolding checkRules_def try_block_def lr by simp
  show "rule_queries (snd (checkRules f reading io w)) = rule_queries w"
    unfolding c by (simp add: catch_log_queries apply_rules_queries)
      (simp add: rule_queries_def record_call_def)
next
  show "let key = cacheKey (rd_metric_id reading);
               found = filter (\<lambda>r. ar_metric_id r = rd_metric_id reading) (alert_rules w);
               w3 = w\<lparr>redis := (redis w)(key \<mapsto> (JSON_stringify found, now w + 300)),
                      calls := calls w @ [Redis_get key, Find_many (rd_metric_id reading),
                                          Redis_set key (JSON_stringify found) 300]\<rparr>
           in (redis w key = None \<or> (\<exists>txt expiry. redis w key = Some (txt, expiry) \<and> expiry \<le> now w))
              \<and> \<not> f (Suc (length (calls w))) (Find_many (rd_metric_id reading))
              \<and> \<not> f (Suc (Suc (length (calls w)))) (Redis_set key (JSON_stringify found) 300) \<longrightarrow>
                checkRules f reading io w = catch_log reading (apply_rules f reading io found w3)
                \<and> rule_queries (snd (checkRules f reading io w))
                    = rule_queries w @ [Find_many (rd_metric_id reading)]"
    unfolding Let_def
  proof (intro impI)
    let ?key = "cacheKey (rd_metric_id reading)"
    let ?found = "filter (\<lambda>r. ar_metric_id r = rd_metric_id reading) (alert_rules w)"
    let ?w3 = "w\<lparr>redis := (redis w)(?key \<mapsto> (JSON_stringify ?found, now w + 300)),
                  calls := calls w @ [Redis_get ?key, Find_many (rd_metric_id reading),
                                      Redis_set ?key (JSON_stringify ?found) 300]\<rparr>"
    assume miss: "(redis w ?key = None \<or> (\<exists>txt expiry. redis w ?key = Some (txt, expiry) \<and> expiry \<le> now w))
        \<and> \<not> f (Suc (length (calls w))) (Find_many (rd_metric_id reading))
        \<and> \<not> f (Suc (Suc (length (calls w)))) (Redis_set ?key (JSON_stringify ?found) 300)"
    have lr: "load_rules f (rd_metric_id reading) ?key w = (Inr ?found, ?w3)"
      using load_rules_miss [of f w ?key "rd_metric_id reading"] get_ok miss by blast
    have c: "checkRules f reading io w = catch_log reading (apply_rules f reading io ?found ?w3)"
      unfolding checkRules_def try_block_def lr by simp
    have "rule_queries (snd (checkRules f reading io w)) = rule_queries ?w3"
      unfolding c by (simp add: catch_log_queries apply_rules_queries)
    also have "\<dots> = rule_queries w @ [Find_many (rd_metric_id reading)]"
      by (simp add: rule_queries_def)
    finally show "checkRules f reading io w = catch_log reading (apply_rules f reading io ?found ?w3)
      \<and> rule_queries (snd (checkRules f reading io w)) = rule_queries w @ [Find_many (rd_metric_id reading)]"
      using c by simp
  qed
qed

theorem rule_cache_read_through_witness:
  "rule_queries (snd (checkRules no_fault ex_reading True ex_world)) = [Find_many ''metric-123'']
   \<and> rule_queries (snd (checkRules no_fault ex_reading True ex_world_cached)) = []"
proof
  have "\<not> no_fault (length (calls ex_world)) (Redis_get (cacheKey (rd_metric_id ex_reading)))"
    by (simp add: no_fault_def)
  from rule_cache_read_through [where f = no_fault and w = ex_world and reading = ex_reading
      and io = True, OF this]
  have "redis ex_world (cacheKey (rd_metric_id ex_reading)) = None \<longrightarrow>
        rule_queries (snd (checkRules no_fault ex_reading True ex_world))
          = rule_queries ex_world @ [Find_many (rd_metric_id ex_reading)]"
    unfolding Let_def no_fault_def by blast
  then show "rule_queries (snd (checkRules no_fault ex_reading True ex_world)) = [Find_many ''metric-123'']"
    by (simp add: ex_world_def rule_queries_def ex_reading_def)
next
  have "\<not> no_fault (length (calls ex_world_cached)) (Redis_get (cacheKey (rd_metric_id ex_reading)))"
    by (simp add: no_fault_def)
  from rule_cache_read_through [where f = no_fault and w = ex_world_cached
      and reading = ex_reading and io = True, OF this]
  have "redis ex_world_cached (cacheKey (rd_metric_id ex_reading))
          = Some (JSON_stringify [ex_rule, ex_rule2], 1200) \<and> now ex_world_cached < 1200 \<longrightarrow>
        rule_queries (snd (checkRules no_fault ex_reading True ex_world_cached))
          = rule_queries ex_world_cached"
    by blast
  then show "rule_queries (snd (checkRules no_fault ex_reading True ex_world_cached)) = []"
    by (simp add: ex_key ex_world_cached_def rule_queries_def)
qed

section \<open>Runs on the fixtures\<close>

lemmas run_defs =
  checkRules_def catch_log_def console_error_def try_block_def load_rules_def apply_rules_def
  collaborator_defs for_rules.simps(2) conditionMet_def num_val_def cacheKey_def JSON_stringify_def
  RULES_CACHE_TTL_def Let_def truthy_def

lemmas fixture_defs =
  ex_reading_def ex_rule_def ex_rule2_def ex_metric_def ex_world_def ex_world_cached_def
  no_fault_def fail_at_def

lemma ex_message:
  "generateMessage ''{metricName} is {value}, exceeding {threshold}'' ''Temperature''
     (Number 355 1) (Number 30 0) = ''Temperature is 35.5, exceeding 30''"
  by (simp add: generateMessage_def String_replace_def number_toString_def digits_of.simps
      strip_zeros_def digit_char_def)

lemma ex_message2:
  "generateMessage ''{metricName} is {value}, exceeding {threshold}'' ''Temperature''
     (Number 355 1) (Number 25 0) = ''Temperature is 35.5, exceeding 25''"
  by (simp add: generateMessage_def String_replace_def number_toString_def digits_of.simps
      strip_zeros_def digit_char_def)

text \<open>
  C3, as stated, fails: in a world with an empty cache and one rule that fires, a failing
  cache read (the call number 0) and a failing cache write (the call number 2) both leave
  the reading without any alert, whereas the plain cache miss creates the alert.
\<close>

theorem cache_failure_counterexample:
  "alerts (snd (checkRules (fail_at 0) ex_reading True ex_world)) = []
   \<and> alerts (snd (checkRules (fail_at 2) ex_reading True ex_world)) = []
   \<and> alerts (snd (checkRules no_fault ex_reading True ex_world)) =
       [\<lparr>alert_id = 0, created_at = 1000,
         data = \<lparr>metric_id = ''metric-123'', reading_id = ''reading-123'', level = ''critical'',
                  status = ''new'', threshold = Number 30 0,
                  message = ''Temperature is 35.5, exceeding 30''\<rparr>\<rparr>]"
  using ex_message by (simp add: run_defs fixture_defs)

section \<open>Condition evaluation\<close>

lemma fires_iff:
  "fires reading r =
     (ar_condition r = ''>'' \<and> num_val (rd_value reading) > num_val (ar_threshold r)
      \<or> ar_condition r = ''<'' \<and> num_val (rd_value reading) < num_val (ar_threshold r)
      \<or> ar_condition r = ''>='' \<and> num_val (rd_value reading) \<ge> num_val (ar_threshold r)
      \<or> ar_condition r = ''<='' \<and> num_val (rd_value reading) \<le> num_val (ar_threshold r)
      \<or> ar_condition r = ''=='' \<and> num_val (rd_value reading) = num_val (ar_threshold r)
      \<or> ar_condition r = ''!='' \<and> num_val (rd_value reading) \<noteq> num_val (ar_threshold r))"
  by (simp add: fires_def conditionMet_def)

text \<open>
  C6: the six operators hold exactly when the corresponding comparison of the value with
  the threshold holds.  For any other operator the condition does not hold, nothing is
  thrown and the rule is skipped.  The loop goes on with the other rules: when no call
  fails it ends normally and has stored, in the order of the rules, one alert for each
  rule whose operator is one of the six and whose comparison holds, and none for any other
  rule.  The witness runs a rule with an unknown operator before two well-formed rules.
\<close>

theorem conditionMet_semantics:
  "conditionMet ''>'' v t = Some (num_val v > num_val t)
   \<and> conditionMet ''<'' v t = Some (num_val v < num_val t)
   \<and> conditionMet ''>='' v t = Some (num_val v \<ge> num_val t)
   \<and> conditionMet ''<='' v t = Some (num_val v \<le> num_val t)
   \<and> conditionMet ''=='' v t = Some (num_val v = num_val t)
   \<and> conditionMet ''!='' v t = Some (num_val v \<noteq> num_val t)
   \<and> (ar_condition rule \<notin> {''>'', ''<'', ''>='', ''<='', ''=='', ''!=''} \<longrightarrow>
        conditionMet (ar_condition rule) v t = None
        \<and> for_rules f reading io metric (rule # rest) w = for_rules f reading io metric rest w)
   \<and> ((\<forall>n c. \<not> f n c) \<longrightarrow>
        fst (for_rules f reading io metric rules w) = Inr ()
        \<and> take (length (alerts w)) (alerts (snd (for_rules f reading io metric rules w))) = alerts w
        \<and> map data (drop (length (alerts w)) (alerts (snd (for_rules f reading io metric rules w)))) =
            map (\<lambda>r. \<lparr>metric_id = rd_metric_id reading, reading_id = rd_id reading,
                       level = ar_level r, status = ''new'', threshold = ar_threshold r,
                       message = generateMessage (ar_message_template r) (m_name metric)
                                   (rd_value reading) (ar_threshold r)\<rparr>)
              (filter (\<lambda>r.
                   ar_condition r = ''>'' \<and> num_val (rd_value reading) > num_val (ar_threshold r)
                 \<or> ar_condition r = ''<'' \<and> num_val (rd_value reading) < num_val (ar_threshold r)
                 \<or> ar_condition r = ''>='' \<and> num_val (rd_value reading) \<ge> num_val (ar_threshold r)
                 \<or> ar_condition r = ''<='' \<and> num_val (rd_value reading) \<le> num_val (ar_threshold r)
                 \<or> ar_condition r = ''=='' \<and> num_val (rd_value reading) = num_val (ar_threshold r)
                 \<or> ar_condition r = ''!='' \<and> num_val (rd_value reading) \<noteq> num_val (ar_threshold r))
               rules))"
proof -
  have skip: "for_rules f reading io metric (rule # rest) w = for_rules f reading io metric rest w"
    if "ar_condition rule \<notin> {''>'', ''<'', ''>='', ''<='', ''=='', ''!=''}"
  proof -
    from that have "conditionMet (ar_condition rule) (rd_value reading) (ar_threshold rule) = None"
      by (simp add: conditionMet_def)
    then show ?thesis by (simp add: for_rules.simps(2))
  qed
  have loop: "fst (for_rules f reading io metric rules w) = Inr ()
        \<and> take (length (alerts w)) (alerts (snd (for_rules f reading io metric rules w))) = alerts w
        \<and> map data (drop (length (alerts w)) (alerts (snd (for_rules f reading io metric rules w)))) =
            map (alertData_of reading metric) (filter (fires reading) rules)"
    if nf: "\<forall>n c. \<not> f n c"
  proof -
    from nf have nf': "\<And>n c. \<not> f n c" by blast
    obtain new where run: "for_rules f reading io metric rules w =
      (Inr (), w\<lparr>alerts := alerts w @ new,
                 emitted := emitted w @
                   (if publishes io metric then map (\<lambda>a. (room_of metric, ''new_alert'', a)) new else []),
                 calls := calls w @
                   concat (map (\<lambda>a. Alert_create (data a) #
                     (if publishes io metric then [Emit (room_of metric) ''new_alert'' a] else [])) new)\<rparr>)"
      and dat: "map data new = map (alertData_of reading metric) (filter (fires reading) rules)"
      using for_rules_no_fault [of f reading io metric rules w, OF nf'] by blast
    show ?thesis unfolding run using dat by simp
  qed
  have d: "alertData_of reading metric =
      (\<lambda>r. \<lparr>metric_id = rd_metric_id reading, reading_id = rd_id reading,
                       level = ar_level r, status = ''new'', threshold = ar_threshold r,
                       message = generateMessage (ar_message_template r) (m_name metric)
                                   (rd_value reading) (ar_threshold r)\<rparr>)"
    by (simp add: alertData_of_def fun_eq_iff)
  have f: "fires reading = (\<lambda>r.
                   ar_condition r = ''>'' \<and> num_val (rd_value reading) > num_val (ar_threshold r)
                 \<or> ar_condition r = ''<'' \<and> num_val (rd_value reading) < num_val (ar_threshold r)
                 \<or> ar_condition r = ''>='' \<and> num_val (rd_value reading) \<ge> num_val (ar_threshold r)
                 \<or> ar_condition r = ''<='' \<and> num_val (rd_value reading) \<le> num_val (ar_threshold r)
                 \<or> ar_condition r = ''=='' \<and> num_val (rd_value reading) = num_val (ar_threshold r)
                 \<or> ar_condition r = ''!='' \<and> num_val (rd_value reading) \<noteq> num_val (ar_threshold r))"
    using fires_iff [of reading] by (simp add: fun_eq_iff)
  have ops: "conditionMet ''>'' v t = Some (num_val v > num_val t)
   \<and> conditionMet ''<'' v t = Some (num_val v < num_val t)
   \<and> conditionMet ''>='' v t = Some (num_val v \<ge> num_val t)
   \<and> conditionMet ''<='' v t = Some (num_val v \<le> num_val t)
   \<and> conditionMet ''=='' v t = Some (num_val v = num_val t)
   \<and> conditionMet ''!='' v t = Some (num_val v \<noteq> num_val t)
   \<and> (ar_condition rule \<notin> {''>'', ''<'', ''>='', ''<='', ''=='', ''!=''} \<longrightarrow>
        conditionMet (ar_condition rule) v t = None)"
    by (simp add: conditionMet_def)
  show ?thesis using ops skip loop unfolding d f by blast
qed

theorem conditionMet_semantics_witness:
  "conditionMet ''>'' (Number 355 1) (Number 30 0) = Some True
   \<and> conditionMet ''=='' (Number 355 1) (Number 30 0) = Some False
   \<and> conditionMet ''???'' (Number 355 1) (Number 30 0) = None
   \<and> fst (for_rules no_fault ex_reading True ex_metric
             [ex_rule\<lparr>ar_condition := ''???''\<rparr>, ex_rule, ex_rule\<lparr>ar_condition := ''<''\<rparr>] ex_world)
       = Inr ()
   \<and> map data (alerts (snd (for_rules no_fault ex_reading True ex_metric
             [ex_rule\<lparr>ar_condition := ''???''\<rparr>, ex_rule, ex_rule\<lparr>ar_condition := ''<''\<rparr>] ex_world)))
       = [\<lparr>metric_id = ''metric-123'', reading_id = ''reading-123'', level = ''critical'',
           status = ''new'', threshold = Number 30 0,
           message = ''Temperature is 35.5, exceeding 30''\<rparr>]"
proof -
  let ?bad = "ex_rule\<lparr>ar_condition := ''???''\<rparr>"
  let ?rules = "[?bad, ex_rule, ex_rule\<lparr>ar_condition := ''<''\<rparr>]"
  have nf: "\<forall>n c. \<not> no_fault n c" by (simp add: no_fault_def)
  have e: "alerts ex_world = []" by (simp add: ex_world_def)
  have msg: "generateMessage (ar_message_template ex_rule) (m_name ex_metric) (rd_value ex_reading)
      (ar_threshold ex_rule) = ''Temperature is 35.5, exceeding 30''"
    using ex_message by (simp add: fixture_defs)
  have flt: "filter (\<lambda>r.
                   ar_condition r = ''>'' \<and> num_val (rd_value ex_reading) > num_val (ar_threshold r)
                 \<or> ar_condition r = ''<'' \<and> num_val (rd_value ex_reading) < num_val (ar_threshold r)
                 \<or> ar_condition r = ''>='' \<and> num_val (rd_value ex_reading) \<ge> num_val (ar_threshold r)
                 \<or> ar_condition r = ''<='' \<and> num_val (rd_value ex_reading) \<le> num_val (ar_threshold r)
                 \<or> ar_condition r = ''=='' \<and> num_val (rd_value ex_reading) = num_val (ar_threshold r)
                 \<or> ar_condition r = ''!='' \<and> num_val (rd_value ex_reading) \<noteq> num_val (ar_threshold r))
               ?rules = [ex_rule]"
    by (simp add: num_val_def ex_rule_def ex_reading_def)
  note inst = conditionMet_semantics [where v = "Number 355 1" and t = "Number 30 0" and rule = ?bad
      and f = no_fault and reading = ex_reading and io = True and metric = ex_metric
      and rest = "[ex_rule, ex_rule\<lparr>ar_condition := ''<''\<rparr>]" and w = ex_world and rules = ?rules]
  have ops: "conditionMet ''>'' (Number 355 1) (Number 30 0) = Some True
   \<and> conditionMet ''=='' (Number 355 1) (Number 30 0) = Some False
   \<and> conditionMet ''???'' (Number 355 1) (Number 30 0) = None"
    using inst by (simp add: num_val_def)
  have loop: "fst (for_rules no_fault ex_reading True ex_metric ?rules ex_world) = Inr ()
     \<and> map data (drop (length (alerts ex_world))
          (alerts (snd (for_rules no_fault ex_reading True ex_metric ?rules ex_world)))) =
            map (\<lambda>r. \<lparr>metric_id = rd_metric_id ex_reading, reading_id = rd_id ex_reading,
                       level = ar_level r, status = ''new'', threshold = ar_threshold r,
                       message = generateMessage (ar_message_template r) (m_name ex_metric)
                                   (rd_value ex_reading) (ar_threshold r)\<rparr>) [ex_rule]"
    using inst nf unfolding flt by blast
  then have "fst (for_rules no_fault ex_reading True ex_metric ?rules ex_world) = Inr ()
     \<and> map data (alerts (snd (for_rules no_fault ex_reading True ex_metric ?rules ex_world))) =
       [\<lparr>metric_id = ''metric-123'', reading_id = ''reading-123'', level = ''critical'',
           status = ''new'', threshold = Number 30 0,
           message = ''Temperature is 35.5, exceeding 30''\<rparr>]"
    unfolding e using msg by (simp add: ex_reading_def ex_rule_def)
  with ops show ?thesis by blast
qed

section \<open>Alerts and notifications\<close>

lemma catch_log_alerts: "alerts (snd (catch_log r res)) = alerts (snd res)"
  by (cases res) (simp add: catch_log_def console_error_def split: sum.split)

lemma apply_rules_unresolved:
  "f (length (calls w)) (Find_unique (rd_metric_id r)) \<Longrightarrow>
   apply_rules f r io rules w = (Inl PrismaError, record_call (Find_unique (rd_metric_id r)) w)"
  by (simp add: apply_rules_def metric_findUnique_def)

lemma apply_rules_resolved:
  "\<not> f (length (calls w)) (Find_unique (rd_metric_id r)) \<Longrightarrow>
   find (\<lambda>m. m_id m = rd_metric_id r) (metrics w) = Some m \<Longrightarrow>
   apply_rules f r io rules w = for_rules f r io m rules (record_call (Find_unique (rd_metric_id r)) w)"
  by (simp add: apply_rules_def metric_findUnique_def)

lemma checkRules_trace:
  assumes metric: "find (\<lambda>m. m_id m = rd_metric_id r) (metrics w) = Some m"
  shows "\<exists>new cs. alerts (snd (checkRules f r io w)) = alerts w @ new
     \<and> calls (snd (checkRules f r io w)) = calls w @ cs
     \<and> filter is_emit cs =
         (if publishes io m then map (Emit (room_of m) ''new_alert'') new else [])"
proof -
  obtain res1 w1 where lr: "load_rules f (rd_metric_id r) (cacheKey (rd_metric_id r)) w = (res1, w1)"
    by (cases "load_rules f (rd_metric_id r) (cacheKey (rd_metric_id r)) w")
  have fr: "alerts w1 = alerts w" "metrics w1 = metrics w"
    using load_rules_frame [of f "rd_metric_id r" "cacheKey (rd_metric_id r)" w] lr by simp_all
  obtain cs1 where c1: "calls w1 = calls w @ cs1" "filter is_emit cs1 = []"
    using load_rules_calls [of f "rd_metric_id r" "cacheKey (rd_metric_id r)" w] lr by auto
  have goal: "\<exists>new cs. alerts (snd (try_block f r io w)) = alerts w @ new
     \<and> calls (snd (try_block f r io w)) = calls w @ cs
     \<and> filter is_emit cs =
         (if publishes io m then map (Emit (room_of m) ''new_alert'') new else [])"
  proof (cases res1)
    case (Inl e)
    then have "try_block f r io w = (Inl e, w1)" by (simp add: try_block_def lr)
    then have "alerts (snd (try_block f r io w)) = alerts w @ []
       \<and> calls (snd (try_block f r io w)) = calls w @ cs1
       \<and> filter is_emit cs1 = (if publishes io m then map (Emit (room_of m) ''new_alert'') [] else [])"
      using fr c1 by simp
    then show ?thesis by blast
  next
    case (Inr rs)
    then have tb: "try_block f r io w = apply_rules f r io rs w1" by (simp add: try_block_def lr)
    let ?q = "Find_unique (rd_metric_id r)"
    show ?thesis
    proof (cases "f (length (calls w1)) ?q")
      case True
      then have "try_block f r io w = (Inl PrismaError, record_call ?q w1)"
        unfolding tb by (rule apply_rules_unresolved)
      then have "alerts (snd (try_block f r io w)) = alerts w @ []
         \<and> calls (snd (try_block f r io w)) = calls w @ (cs1 @ [?q])
         \<and> filter is_emit (cs1 @ [?q]) = (if publishes io m then map (Emit (room_of m) ''new_alert'') [] else [])"
        using fr c1 by (simp add: record_call_def)
      then show ?thesis by blast
    next
      case False
      have m1: "find (\<lambda>m. m_id m = rd_metric_id r) (metrics w1) = Some m"
        using metric fr by simp
      have eq: "try_block f r io w = for_rules f r io m rs (record_call ?q w1)"
        unfolding tb using False m1 by (rule apply_rules_resolved)
      obtain new cs2 where
        "alerts (snd (for_rules f r io m rs (record_call ?q w1))) = alerts (record_call ?q w1) @ new"
        "calls (snd (for_rules f r io m rs (record_call ?q w1))) = calls (record_call ?q w1) @ cs2"
        "filter is_emit cs2 = (if publishes io m then map (Emit (room_of m) ''new_alert'') new else [])"
        using for_rules_trace [of f r io m rs "record_call ?q w1"] by blast
      then have "alerts (snd (try_block f r io w)) = alerts w @ new
         \<and> calls (snd (try_block f r io w)) = calls w @ (cs1 @ ?q # cs2)
         \<and> filter is_emit (cs1 @ ?q # cs2) = (if publishes io m then map (Emit (room_of m) ''new_alert'') new else [])"
        unfolding eq using fr c1 by (simp add: record_call_def)
      then show ?thesis by blast
    qed
  qed
  then show ?thesis by (simp add: checkRules_def catch_log_alerts catch_log_calls)
qed

lemma checkRules_no_fault_run:
  assumes rules: "load_rules no_fault (rd_metric_id r) (cacheKey (rd_metric_id r)) w = (Inr rs, w1)"
    and metric: "find (\<lambda>m. m_id m = rd_metric_id r) (metrics w) = Some m"
  shows "\<exists>new. checkRules no_fault r io w =
      (Inr (), w1\<lparr>alerts := alerts w @ new,
                 emitted := emitted w @
                   (if publishes io m then map (\<lambda>a. (room_of m, ''new_alert'', a)) new else []),
                 calls := calls w1 @ Find_unique (rd_metric_id r) #
                   concat (map (\<lambda>a. Alert_create (data a) #
                     (if publishes io m then [Emit (room_of m) ''new_alert'' a] else [])) new)\<rparr>)
    \<and> map data new = map (alertData_of r m) (filter (fires r) rs)"
proof -
  let ?q = "Find_unique (rd_metric_id r)"
  have fr: "alerts w1 = alerts w" "metrics w1 = metrics w" "emitted w1 = emitted w"
    using load_rules_frame [of no_fault "rd_metric_id r" "cacheKey (rd_metric_id r)" w] rules
    by simp_all
  have nf: "\<And>n c. \<not> no_fault n c" by (simp add: no_fault_def)
  have m1: "find (\<lambda>m. m_id m = rd_metric_id r) (metrics w1) = Some m"
    using metric fr by simp
  have "try_block no_fault r io w = apply_rules no_fault r io rs w1"
    by (simp add: try_block_def rules)
  also have "\<dots> = for_rules no_fault r io m rs (record_call ?q w1)"
    using nf m1 by (rule apply_rules_resolved)
  finally have eq: "try_block no_fault r io w = for_rules no_fault r io m rs (record_call ?q w1)" .
  obtain new where
    run: "for_rules no_fault r io m rs (record_call ?q w1) =
      (Inr (), (record_call ?q w1)\<lparr>alerts := alerts (record_call ?q w1) @ new,
                 emitted := emitted (record_call ?q w1) @
                   (if publishes io m then map (\<lambda>a. (room_of m, ''new_alert'', a)) new else []),
                 calls := calls (record_call ?q w1) @
                   concat (map (\<lambda>a. Alert_create (data a) #
                     (if publishes io m then [Emit (room_of m) ''new_alert'' a] else [])) new)\<rparr>)"
    and dat: "map data new = map (alertData_of r m) (filter (fires r) rs)"
    using for_rules_no_fault [of no_fault r io m rs "record_call ?q w1", OF nf] by blast
  have "checkRules no_fault r io w =
      (Inr (), w1\<lparr>alerts := alerts w @ new,
                 emitted := emitted w @
                   (if publishes io m then map (\<lambda>a. (room_of m, ''new_alert'', a)) new else []),
                 calls := calls w1 @ Find_unique (rd_metric_id r) #
                   concat (map (\<lambda>a. Alert_create (data a) #
                     (if publishes io m then [Emit (room_of m) ''new_alert'' a] else [])) new)\<rparr>)"
    unfolding checkRules_def eq run using fr by (simp add: catch_log_def record_call_def)
  then show ?thesis using dat by blast
qed

text \<open>
  C8: when no call fails, the rules are loaded and the metric resolves, the alerts stored
  before are kept and exactly the rules whose condition holds add one alert each, in the
  order of the rules, with status \<open>new\<close>, the rule's level and threshold, the ids of the
  metric and of the reading, and the message rendered from the rule's template.  A reading
  that satisfies no rule adds no alert.  The witness is the example with value 35.5.
\<close>

theorem alert_creation_postcondition:
  assumes rules: "fst (load_rules no_fault (rd_metric_id reading) (cacheKey (rd_metric_id reading)) w) = Inr rs"
    and metric: "find (\<lambda>m. m_id m = rd_metric_id reading) (metrics w) = Some metric"
  shows "take (length (alerts w)) (alerts (snd (checkRules no_fault reading io w))) = alerts w
    \<and> map data (drop (length (alerts w)) (alerts (snd (checkRules no_fault reading io w)))) =
        map (\<lambda>rule. \<lparr>metric_id = rd_metric_id reading, reading_id = rd_id reading,
                      level = ar_level rule, status = ''new'', threshold = ar_threshold rule,
                      message = generateMessage (ar_message_template rule) (m_name metric)
                                  (rd_value reading) (ar_threshold rule)\<rparr>)
            (filter (\<lambda>rule. conditionMet (ar_condition rule) (rd_value reading) (ar_threshold rule)
                              = Some True) rs)
    \<and> ((\<forall>rule \<in> set rs. conditionMet (ar_condition rule) (rd_value reading) (ar_threshold rule)
                              \<noteq> Some True) \<longrightarrow>
         alerts (snd (checkRules no_fault reading io w)) = alerts w)"
proof -
  obtain w1 where lr: "load_rules no_fault (rd_metric_id reading) (cacheKey (rd_metric_id reading)) w
      = (Inr rs, w1)"
    using rules by (cases "load_rules no_fault (rd_metric_id reading) (cacheKey (rd_metric_id reading)) w") simp
  obtain new where al: "alerts (snd (checkRules no_fault reading io w)) = alerts w @ new"
    and dat: "map data new = map (alertData_of reading metric) (filter (fires reading) rs)"
    using checkRules_no_fault_run [OF lr metric, of io] by auto
  have d: "alertData_of reading metric =
      (\<lambda>rule. \<lparr>metric_id = rd_metric_id reading, reading_id = rd_id reading,
                      level = ar_level rule, status = ''new'', threshold = ar_threshold rule,
                      message = generateMessage (ar_message_template rule) (m_name metric)
                                  (rd_value reading) (ar_threshold rule)\<rparr>)"
    by (simp add: alertData_of_def fun_eq_iff)
  have f: "fires reading =
      (\<lambda>rule. conditionMet (ar_condition rule) (rd_value reading) (ar_threshold rule) = Some True)"
    by (simp add: fires_def fun_eq_iff)
  have none: "new = []"
    if "\<forall>rule \<in> set rs. conditionMet (ar_condition rule) (rd_value reading) (ar_threshold rule) \<noteq> Some True"
  proof -
    from that have "filter (fires reading) rs = []" by (simp add: f filter_empty_conv)
    with dat show ?thesis by simp
  qed
  show ?thesis
    using dat none unfolding al d f by simp
qed

theorem alert_creation_postcondition_witness:
  "map data (alerts (snd (checkRules no_fault ex_reading True ex_world))) =
     [\<lparr>metric_id = ''metric-123'', reading_id = ''reading-123'', level = ''critical'',
       status = ''new'', threshold = Number 30 0,
       message = ''Temperature is 35.5, exceeding 30''\<rparr>]"
proof -
  have lr: "fst (load_rules no_fault (rd_metric_id ex_reading) (cacheKey (rd_metric_id ex_reading)) ex_world)
      = Inr [ex_rule]"
    by (simp add: load_rules_def collaborator_defs fixture_defs)
  have m: "find (\<lambda>m. m_id m = rd_metric_id ex_reading) (metrics ex_world) = Some ex_metric"
    by (simp add: fixture_defs)
  have c: "conditionMet (ar_condition ex_rule) (rd_value ex_reading) (ar_threshold ex_rule) = Some True"
    by (simp add: conditionMet_def num_val_def fixture_defs)
  have msg: "generateMessage (ar_message_template ex_rule) (m_name ex_metric) (rd_value ex_reading)
      (ar_threshold ex_rule) = ''Temperature is 35.5, exceeding 30''"
    using ex_message by (simp add: fixture_defs)
  have "map data (drop (length (alerts ex_world)) (alerts (snd (checkRules no_fault ex_reading True ex_world))))
    = [\<lparr>metric_id = rd_metric_id ex_reading, reading_id = rd_id ex_reading,
                      level = ar_level ex_rule, status = ''new'', threshold = ar_threshold ex_rule,
                      message = ''Temperature is 35.5, exceeding 30''\<rparr>]"
    using alert_creation_postcondition [OF lr m, of True] c msg by simp
  moreover have "alerts ex_world = []" by (simp add: ex_world_def)
  ultimately show ?thesis by (simp add: ex_reading_def ex_rule_def)
qed

text \<open>
  C9: for a metric that resolves and any fault plan, the publish calls made by checkRules
  are exactly one per alert it stored, carrying that stored alert, to the room \<open>user:\<close>
  followed by the owner id with the event \<open>new_alert\<close>, when a notifier was supplied and
  the owner id is present and not empty; otherwise there is no publish call at all.  When
  no call fails, every publish comes right after the creation of its alert, the events
  delivered are these publishes, and the alerts stored are one per rule whose condition
  holds, whether or not anything is published.  The witness runs the example with a
  notifier and an owner, without notifier, with an empty owner id and with no owner id.
\<close>

theorem notification_gating:
  assumes metric: "find (\<lambda>m. m_id m = rd_metric_id reading) (metrics w) = Some metric"
  shows "(let w' = snd (checkRules f reading io w);
              new_alerts = drop (length (alerts w)) (alerts w');
              new_calls = drop (length (calls w)) (calls w')
          in alerts w' = alerts w @ new_alerts \<and> calls w' = calls w @ new_calls
             \<and> filter is_emit new_calls =
                 (if io \<and> truthy (dev_owner_id (m_device metric))
                  then map (Emit (''user:'' @ the (dev_owner_id (m_device metric))) ''new_alert'')
                         new_alerts
                  else []))
    \<and> (\<forall>rs w1. f = no_fault
          \<and> load_rules f (rd_metric_id reading) (cacheKey (rd_metric_id reading)) w = (Inr rs, w1) \<longrightarrow>
          (let w' = snd (checkRules f reading io w);
               new_alerts = drop (length (alerts w)) (alerts w')
           in calls w' = calls w1 @ Find_unique (rd_metric_id reading) #
                concat (map (\<lambda>a. Alert_create (data a) #
                   (if io \<and> truthy (dev_owner_id (m_device metric))
                    then [Emit (''user:'' @ the (dev_owner_id (m_device metric))) ''new_alert'' a]
                    else [])) new_alerts)
              \<and> emitted w' = emitted w @
                   (if io \<and> truthy (dev_owner_id (m_device metric))
                    then map (\<lambda>a. (''user:'' @ the (dev_owner_id (m_device metric)), ''new_alert'', a))
                           new_alerts
                    else [])
              \<and> map data new_alerts =
                   map (\<lambda>rule. \<lparr>metric_id = rd_metric_id reading, reading_id = rd_id reading,
                                 level = ar_level rule, status = ''new'', threshold = ar_threshold rule,
                                 message = generateMessage (ar_message_template rule) (m_name metric)
                                             (rd_value reading) (ar_threshold rule)\<rparr>)
                     (filter (\<lambda>rule. conditionMet (ar_condition rule) (rd_value reading)
                                        (ar_threshold rule) = Some True) rs)))"
proof (intro conjI allI impI)
  obtain new cs where al: "alerts (snd (checkRules f reading io w)) = alerts w @ new"
    and cl: "calls (snd (checkRules f reading io w)) = calls w @ cs"
    and em: "filter is_emit cs = (if publishes io metric then map (Emit (room_of metric) ''new_alert'') new else [])"
    using checkRules_trace [OF metric, of f io] by blast
  have dn: "drop (length (alerts w)) (alerts (snd (checkRules f reading io w))) = new"
    unfolding al by simp
  have dc: "drop (length (calls w)) (calls (snd (checkRules f reading io w))) = cs"
    unfolding cl by simp
  have em': "filter is_emit cs =
                 (if io \<and> truthy (dev_owner_id (m_device metric))
                  then map (Emit (''user:'' @ the (dev_owner_id (m_device metric))) ''new_alert'') new
                  else [])"
    using em unfolding publishes_def room_of_def .
  show "let w' = snd (checkRules f reading io w);
              new_alerts = drop (length (alerts w)) (alerts w');
              new_calls = drop (length (calls w)) (calls w')
          in alerts w' = alerts w @ new_alerts \<and> calls w' = calls w @ new_calls
             \<and> filter is_emit new_calls =
                 (if io \<and> truthy (dev_owner_id (m_device metric))
                  then map (Emit (''user:'' @ the (dev_owner_id (m_device metric))) ''new_alert'')
                         new_alerts
                  else [])"
    unfolding Let_def dn dc using al cl em' by blast
next
  fix rs w1
  assume h: "f = no_fault
     \<and> load_rules f (rd_metric_id reading) (cacheKey (rd_metric_id reading)) w = (Inr rs, w1)"
  then have lr: "load_rules no_fault (rd_metric_id reading) (cacheKey (rd_metric_id reading)) w = (Inr rs, w1)"
    by blast
  obtain new where run: "checkRules no_fault reading io w =
      (Inr (), w1\<lparr>alerts := alerts w @ new,
                 emitted := emitted w @
                   (if publishes io metric then map (\<lambda>a. (room_of metric, ''new_alert'', a)) new else []),
                 calls := calls w1 @ Find_unique (rd_metric_id reading) #
                   concat (map (\<lambda>a. Alert_create (data a) #
                     (if publishes io metric then [Emit (room_of metric) ''new_alert'' a] else [])) new)\<rparr>)"
    and dat: "map data new = map (alertData_of reading metric) (filter (fires reading) rs)"
    using checkRules_no_fault_run [OF lr metric, of io] by blast
  have f: "f = no_fault" using h by blast
  have dat': "map data new =
                   map (\<lambda>rule. \<lparr>metric_id = rd_metric_id reading, reading_id = rd_id reading,
                                 level = ar_level rule, status = ''new'', threshold = ar_threshold rule,
                                 message = generateMessage (ar_message_template rule) (m_name metric)
                                             (rd_value reading) (ar_threshold rule)\<rparr>)
                     (filter (\<lambda>rule. conditionMet (ar_condition rule) (rd_value reading)
                                        (ar_threshold rule) = Some True) rs)"
    using dat unfolding alertData_of_def fires_def .
  show "let w' = snd (checkRules f reading io w);
               new_alerts = drop (length (alerts w)) (alerts w')
           in calls w' = calls w1 @ Find_unique (rd_metric_id reading) #
                concat (map (\<lambda>a. Alert_create (data a) #
                   (if io \<and> truthy (dev_owner_id (m_device metric))
                    then [Emit (''user:'' @ the (dev_owner_id (m_device metric))) ''new_alert'' a]
                    else [])) new_alerts)
              \<and> emitted w' = emitted w @
                   (if io \<and> truthy (dev_owner_id (m_device metric))
                    then map (\<lambda>a. (''user:'' @ the (dev_owner_id (m_device metric)), ''new_alert'', a))
                           new_alerts
                    else [])
              \<and> map data new_alerts =
                   map (\<lambda>rule. \<lparr>metric_id = rd_metric_id reading, reading_id = rd_id reading,
                                 level = ar_level rule, status = ''new'', threshold = ar_threshold rule,
                                 message = generateMessage (ar_message_template rule) (m_name metric)
                                             (rd_value reading) (ar_threshold rule)\<rparr>)
                     (filter (\<lambda>rule. conditionMet (ar_condition rule) (rd_value reading)
                                        (ar_threshold rule) = Some True) rs)"
    unfolding f run Let_def publishes_def room_of_def using dat' by simp
qed

theorem notification_gating_witness:
  "(let w' = snd (checkRules no_fault ex_reading True ex_world)
    in map data (alerts w') =
         [\<lparr>metric_id = ''metric-123'', reading_id = ''reading-123'', level = ''critical'',
           status = ''new'', threshold = Number 30 0,
           message = ''Temperature is 35.5, exceeding 30''\<rparr>]
       \<and> filter is_emit (calls w') = map (Emit ''user:user-123'' ''new_alert'') (alerts w')
       \<and> emitted w' = map (\<lambda>a. (''user:user-123'', ''new_alert'', a)) (alerts w'))
   \<and> (let w' = snd (checkRules no_fault ex_reading False ex_world)
      in map data (alerts w') =
         [\<lparr>metric_id = ''metric-123'', reading_id = ''reading-123'', level = ''critical'',
           status = ''new'', threshold = Number 30 0,
           message = ''Temperature is 35.5, exceeding 30''\<rparr>]
       \<and> filter is_emit (calls w') = [] \<and> emitted w' = [])
   \<and> (let w' = snd (checkRules no_fault ex_reading True (ex_world_owned_by (Some '''')))
      in map data (alerts w') =
         [\<lparr>metric_id = ''metric-123'', reading_id = ''reading-123'', level = ''critical'',
           status = ''new'', threshold = Number 30 0,
           message = ''Temperature is 35.5, exceeding 30''\<rparr>]
       \<and> filter is_emit (calls w') = [] \<and> emitted w' = [])
   \<and> (let w' = snd (checkRules no_fault ex_reading True (ex_world_owned_by None))
      in map data (alerts w') =
         [\<lparr>metric_id = ''metric-123'', reading_id = ''reading-123'', level = ''critical'',
           status = ''new'', threshold = Number 30 0,
           message = ''Temperature is 35.5, exceeding 30''\<rparr>]
       \<and> filter is_emit (calls w') = [] \<and> emitted w' = [])"
proof -
  let ?d = "\<lparr>metric_id = ''metric-123'', reading_id = ''reading-123'', level = ''critical'',
           status = ''new'', threshold = Number 30 0,
           message = ''Temperature is 35.5, exceeding 30''\<rparr>"
  have main: "map data (alerts (snd (checkRules no_fault ex_reading io (ex_world_owned_by ow)))) = [?d]
      \<and> filter is_emit (calls (snd (checkRules no_fault ex_reading io (ex_world_owned_by ow)))) =
          (if io \<and> truthy ow
           then map (Emit (''user:'' @ the ow) ''new_alert'')
                  (alerts (snd (checkRules no_fault ex_reading io (ex_world_owned_by ow))))
           else [])
      \<and> emitted (snd (checkRules no_fault ex_reading io (ex_world_owned_by ow))) =
          (if io \<and> truthy ow
           then map (\<lambda>a. (''user:'' @ the ow, ''new_alert'', a))
                  (alerts (snd (checkRules no_fault ex_reading io (ex_world_owned_by ow))))
           else [])" for io ow
  proof -
    let ?w = "ex_world_owned_by ow"
    let ?m = "\<lparr>m_id = ''metric-123'', m_name = ''Temperature'', m_unit = ''C'',
                 m_device = \<lparr>dev_id = ''device-123'', dev_owner_id = ow\<rparr>\<rparr>"
    let ?w' = "snd (checkRules no_fault ex_reading io ?w)"
    have m: "find (\<lambda>m. m_id m = rd_metric_id ex_reading) (metrics ?w) = Some ?m"
      by (simp add: ex_world_owned_by_def ex_reading_def)
    have e: "alerts ?w = []" "calls ?w = []" "emitted ?w = []"
      by (simp_all add: ex_world_owned_by_def)
    have "fst (load_rules no_fault (rd_metric_id ex_reading) (cacheKey (rd_metric_id ex_reading)) ?w)
        = Inr [ex_rule]"
      by (simp add: load_rules_def collaborator_defs ex_world_owned_by_def ex_rule_def ex_reading_def
          no_fault_def)
    then obtain w1 where lr: "load_rules no_fault (rd_metric_id ex_reading)
        (cacheKey (rd_metric_id ex_reading)) ?w = (Inr [ex_rule], w1)"
      by (cases "load_rules no_fault (rd_metric_id ex_reading) (cacheKey (rd_metric_id ex_reading)) ?w")
         simp
    have c: "conditionMet (ar_condition ex_rule) (rd_value ex_reading) (ar_threshold ex_rule) = Some True"
      by (simp add: conditionMet_def num_val_def ex_rule_def ex_reading_def)
    have msg: "generateMessage (ar_message_template ex_rule) (m_name ?m) (rd_value ex_reading)
        (ar_threshold ex_rule) = ''Temperature is 35.5, exceeding 30''"
      using ex_message by (simp add: ex_rule_def ex_reading_def)
    note inst = notification_gating [where f = no_fault and reading = ex_reading and io = io
        and w = ?w and metric = ?m, OF m]
    have a: "filter is_emit (drop (length (calls ?w)) (calls ?w')) =
                 (if io \<and> truthy (dev_owner_id (m_device ?m))
                  then map (Emit (''user:'' @ the (dev_owner_id (m_device ?m))) ''new_alert'')
                         (drop (length (alerts ?w)) (alerts ?w'))
                  else [])"
      using inst unfolding Let_def by blast
    have b: "emitted ?w' = emitted ?w @
                   (if io \<and> truthy (dev_owner_id (m_device ?m))
                    then map (\<lambda>a. (''user:'' @ the (dev_owner_id (m_device ?m)), ''new_alert'', a))
                           (drop (length (alerts ?w)) (alerts ?w'))
                    else [])
              \<and> map data (drop (length (alerts ?w)) (alerts ?w')) =
                   map (\<lambda>rule. \<lparr>metric_id = rd_metric_id ex_reading, reading_id = rd_id ex_reading,
                                 level = ar_level rule, status = ''new'', threshold = ar_threshold rule,
                                 message = generateMessage (ar_message_template rule) (m_name ?m)
                                             (rd_value ex_reading) (ar_threshold rule)\<rparr>)
                     (filter (\<lambda>rule. conditionMet (ar_condition rule) (rd_value ex_reading)
                                        (ar_threshold rule) = Some True) [ex_rule])"
      using inst lr unfolding Let_def by blast
    have d: "map data (alerts ?w') = [?d]"
      using b c msg unfolding e by (simp add: ex_reading_def ex_rule_def)
    show ?thesis using a b d unfolding e by simp
  qed
  have w: "ex_world = ex_world_owned_by (Some ''user-123'')"
    by (simp add: ex_world_def ex_world_owned_by_def ex_metric_def)
  show ?thesis
    unfolding w Let_def
    using main [of True "Some ''user-123''"] main [of False "Some ''user-123''"]
      main [of True "Some ''''"] main [of True None]
    by (simp add: truthy_def)
qed

section \<open>Failures inside the pipeline\<close>

text \<open>
  C3, amended: a failure of the cache read, and a failure of the cache write after a miss,
  are caught by the handler of checkRules and logged with the reading's id; checkRules
  returns normally, and the evaluation of the reading stops there: no metric lookup, no
  alert, no publish (after a failed read, no store query either).
\<close>

theorem cache_failure_stops_evaluation:
  "(f (length (calls w)) (Redis_get (cacheKey (rd_metric_id reading))) \<longrightarrow>
      checkRules f reading io w =
        (Inr (), console_error (''Error in checkRules for reading '' @ rd_id reading @ '':'') RedisError
                   (w\<lparr>calls := calls w @ [Redis_get (cacheKey (rd_metric_id reading))]\<rparr>)))
   \<and> (let key = cacheKey (rd_metric_id reading);
           found = filter (\<lambda>r. ar_metric_id r = rd_metric_id reading) (alert_rules w)
       in \<not> f (length (calls w)) (Redis_get key)
          \<and> (redis w key = None \<or> (\<exists>txt expiry. redis w key = Some (txt, expiry) \<and> expiry \<le> now w))
          \<and> \<not> f (Suc (length (calls w))) (Find_many (rd_metric_id reading))
          \<and> f (Suc (Suc (length (calls w)))) (Redis_set key (JSON_stringify found) 300) \<longrightarrow>
          checkRules f reading io w =
            (Inr (), console_error (''Error in checkRules for reading '' @ rd_id reading @ '':'') RedisError
                       (w\<lparr>calls := calls w @ [Redis_get key, Find_many (rd_metric_id reading),
                                                Redis_set key (JSON_stringify found) 300]\<rparr>)))"
proof (intro conjI impI)
  assume "f (length (calls w)) (Redis_get (cacheKey (rd_metric_id reading)))"
  then show "checkRules f reading io w =
        (Inr (), console_error (''Error in checkRules for reading '' @ rd_id reading @ '':'') RedisError
                   (w\<lparr>calls := calls w @ [Redis_get (cacheKey (rd_metric_id reading))]\<rparr>))"
    by (simp add: checkRules_def try_block_get_fails catch_log_def record_call_def)
next
  let ?key = "cacheKey (rd_metric_id reading)"
  let ?found = "filter (\<lambda>r. ar_metric_id r = rd_metric_id reading) (alert_rules w)"
  let ?w3 = "w\<lparr>calls := calls w @ [Redis_get ?key, Find_many (rd_metric_id reading),
                                      Redis_set ?key (JSON_stringify ?found) 300]\<rparr>"
  have "checkRules f reading io w =
            (Inr (), console_error (''Error in checkRules for reading '' @ rd_id reading @ '':'') RedisError ?w3)"
    if h: "\<not> f (length (calls w)) (Redis_get ?key)
          \<and> (redis w ?key = None \<or> (\<exists>txt expiry. redis w ?key = Some (txt, expiry) \<and> expiry \<le> now w))
          \<and> \<not> f (Suc (length (calls w))) (Find_many (rd_metric_id reading))
          \<and> f (Suc (Suc (length (calls w)))) (Redis_set ?key (JSON_stringify ?found) 300)"
  proof -
    have lr: "load_rules f (rd_metric_id reading) ?key w = (Inl RedisError, ?w3)"
      using load_rules_set_fails [of f w ?key "rd_metric_id reading"] h by blast
    show ?thesis unfolding checkRules_def try_block_def lr by (simp add: catch_log_def)
  qed
  then show "let key = cacheKey (rd_metric_id reading);
           found = filter (\<lambda>r. ar_metric_id r = rd_metric_id reading) (alert_rules w)
       in \<not> f (length (calls w)) (Redis_get key)
          \<and> (redis w key = None \<or> (\<exists>txt expiry. redis w key = Some (txt, expiry) \<and> expiry \<le> now w))
          \<and> \<not> f (Suc (length (calls w))) (Find_many (rd_metric_id reading))
          \<and> f (Suc (Suc (length (calls w)))) (Redis_set key (JSON_stringify found) 300) \<longrightarrow>
          checkRules f reading io w =
            (Inr (), console_error (''Error in checkRules for reading '' @ rd_id reading @ '':'') RedisError
                       (w\<lparr>calls := calls w @ [Redis_get key, Find_many (rd_metric_id reading),
                                                Redis_set key (JSON_stringify found) 300]\<rparr>))"
    unfolding Let_def by blast
qed

theorem cache_failure_stops_evaluation_witness:
  "checkRules (fail_at 0) ex_reading True ex_world =
     (Inr (), ex_world\<lparr>console := [(''Error in checkRules for reading reading-123:'', RedisError)],
                       calls := [Redis_get ''alert_rules:metric-123'']\<rparr>)
   \<and> checkRules (fail_at 2) ex_reading True ex_world =
     (Inr (), ex_world\<lparr>console := [(''Error in checkRules for reading reading-123:'', RedisError)],
                       calls := [Redis_get ''alert_rules:metric-123'', Find_many ''metric-123'',
                                 Redis_set ''alert_rules:metric-123'' (JSON_stringify [ex_rule]) 300]\<rparr>)"
proof
  have "fail_at 0 (length (calls ex_world)) (Redis_get (cacheKey (rd_metric_id ex_reading)))"
    by (simp add: fail_at_def ex_world_def)
  with cache_failure_stops_evaluation [of "fail_at 0" ex_world ex_reading True]
  have "checkRules (fail_at 0) ex_reading True ex_world =
        (Inr (), console_error (''Error in checkRules for reading '' @ rd_id ex_reading @ '':'') RedisError
                   (ex_world\<lparr>calls := calls ex_world @ [Redis_get (cacheKey (rd_metric_id ex_reading))]\<rparr>))"
    by blast
  then show "checkRules (fail_at 0) ex_reading True ex_world =
     (Inr (), ex_world\<lparr>console := [(''Error in checkRules for reading reading-123:'', RedisError)],
                       calls := [Redis_get ''alert_rules:metric-123'']\<rparr>)"
    by (simp add: console_error_def ex_key) (simp add: ex_world_def ex_reading_def)
next
  let ?key = "cacheKey (rd_metric_id ex_reading)"
  let ?found = "filter (\<lambda>r. ar_metric_id r = rd_metric_id ex_reading) (alert_rules ex_world)"
  have fnd: "?found = [ex_rule]" by (simp add: fixture_defs)
  have "\<not> fail_at 2 (length (calls ex_world)) (Redis_get ?key)
          \<and> (redis ex_world ?key = None
               \<or> (\<exists>txt expiry. redis ex_world ?key = Some (txt, expiry) \<and> expiry \<le> now ex_world))
          \<and> \<not> fail_at 2 (Suc (length (calls ex_world))) (Find_many (rd_metric_id ex_reading))
          \<and> fail_at 2 (Suc (Suc (length (calls ex_world)))) (Redis_set ?key (JSON_stringify ?found) 300)"
    by (simp add: fail_at_def ex_world_def)
  with cache_failure_stops_evaluation [of "fail_at 2" ex_world ex_reading True]
  have "checkRules (fail_at 2) ex_reading True ex_world =
            (Inr (), console_error (''Error in checkRules for reading '' @ rd_id ex_reading @ '':'') RedisError
                       (ex_world\<lparr>calls := calls ex_world @ [Redis_get ?key, Find_many (rd_metric_id ex_reading),
                                                Redis_set ?key (JSON_stringify ?found) 300]\<rparr>))"
    unfolding Let_def by blast
  then show "checkRules (fail_at 2) ex_reading True ex_world =
     (Inr (), ex_world\<lparr>console := [(''Error in checkRules for reading reading-123:'', RedisError)],
                       calls := [Redis_get ''alert_rules:metric-123'', Find_many ''metric-123'',
                                 Redis_set ''alert_rules:metric-123'' (JSON_stringify [ex_rule]) 300]\<rparr>)"
    unfolding fnd by (simp add: console_error_def ex_key) (simp add: ex_world_def ex_reading_def)
qed

text \<open>
  C1: with two cached rules that both fire, a failure of the first alert creation (the
  call number 2) ends the loop: the creation for the second rule is never attempted.  The
  unit test "should continue processing other rules when one fails" expects two creation
  calls.  Without the failure both rules store their alert.
\<close>

theorem create_failure_stops_loop:
  "calls (snd (checkRules (fail_at 2) ex_reading True ex_world_cached)) =
     [Redis_get ''alert_rules:metric-123'', Find_unique ''metric-123'',
      Alert_create \<lparr>metric_id = ''metric-123'', reading_id = ''reading-123'', level = ''critical'',
                    status = ''new'', threshold = Number 30 0,
                    message = ''Temperature is 35.5, exceeding 30''\<rparr>]
   \<and> alerts (snd (checkRules (fail_at 2) ex_reading True ex_world_cached)) = []
   \<and> console (snd (checkRules (fail_at 2) ex_reading True ex_world_cached)) =
       [(''Error in checkRules for reading reading-123:'', PrismaError)]
   \<and> map (level \<circ> data) (alerts (snd (checkRules no_fault ex_reading True ex_world_cached))) =
       [''critical'', ''warning'']"
  using ex_message ex_message2 by (simp add: run_defs fixture_defs)

text \<open>
  C4: with two cached rules that both fire, a failure of the first publish (the call
  number 3) is caught and logged, and the alert of the first rule stays stored, but the
  loop ends: the second rule is never evaluated and its alert is not created.
\<close>

theorem publish_failure_stops_loop:
  "calls (snd (checkRules (fail_at 3) ex_reading True ex_world_cached)) =
     [Redis_get ''alert_rules:metric-123'', Find_unique ''metric-123'',
      Alert_create \<lparr>metric_id = ''metric-123'', reading_id = ''reading-123'', level = ''critical'',
                    status = ''new'', threshold = Number 30 0,
                    message = ''Temperature is 35.5, exceeding 30''\<rparr>,
      Emit ''user:user-123'' ''new_alert''
        \<lparr>alert_id = 0, created_at = 1000,
         data = \<lparr>metric_id = ''metric-123'', reading_id = ''reading-123'', level = ''critical'',
                  status = ''new'', threshold = Number 30 0,
                  message = ''Temperature is 35.5, exceeding 30''\<rparr>\<rparr>]
   \<and> map (level \<circ> data) (alerts (snd (checkRules (fail_at 3) ex_reading True ex_world_cached))) =
       [''critical'']
   \<and> console (snd (checkRules (fail_at 3) ex_reading True ex_world_cached)) =
       [(''Error in checkRules for reading reading-123:'', SocketError)]
   \<and> map (level \<circ> data) (alerts (snd (checkRules no_fault ex_reading True ex_world_cached))) =
       [''critical'', ''warning'']"
  using ex_message ex_message2 by (simp add: run_defs fixture_defs)

end
